theory Spec2Isabelle
  imports Main
begin

text \<open>
  NewsBrief is a React Native news reader. This theory embeds its bookmark and cache
  logic: the storage service over AsyncStorage, the bookmarks slice of the Redux store
  with its thunks and selectors, the response transformation of the news API, and what
  the three list screens render.

  Conventions. A JavaScript string is a list of 8-bit characters. \<open>Date.now()\<close> is an
  argument of the function that reads it. An asynchronous function returns its outcome
  (\<open>Inl\<close> for a rejected promise) together with the storage after it. Texts that are
  Chinese in the source are named in ASCII. Arithmetic is exact: the rounding of double
  precision numbers is not modelled.
\<close>

type_synonym timestamp = int

section \<open>JSON (the platform's \<open>JSON.stringify\<close> and \<open>JSON.parse\<close>)\<close>

text \<open>
  The values the program serialises: numbers are integers (times in milliseconds), an
  object is the list of its members in the order of the text.

  \<open>JSON_stringify\<close> writes the compact text of the platform: no white space; in a string
  the quote, the backslash and the control characters are escaped (backspace, form feed,
  line feed, carriage return and tab by their letter, the other control characters as
  four hexadecimal digits after the letter u).

  \<open>JSON_parse\<close> reads a JSON text by recursive descent, white space between the tokens
  and every escape included. \<open>None\<close> is the \<open>SyntaxError\<close>; it is also the answer for a
  number with a fraction or an exponent and for an escaped character above 255, which the
  value type cannot hold. The descent runs on fuel, one unit for each nested value and
  each further element; the length of the text plus one is what \<open>JSON_parse\<close> gives it, and
  that is enough for every text that \<open>JSON_stringify\<close> writes.
\<close>

datatype json =
    JNull
  | JBool bool
  | JNumber int
  | JString string
  | JArray "json list"
  | JObject "(string \<times> json) list"

definition digit_char :: "nat \<Rightarrow> char" where
  "digit_char d = char_of (48 + d)"

fun show_nat :: "nat \<Rightarrow> string" where
  "show_nat n = (if n < 10 then [digit_char n] else show_nat (n div 10) @ [digit_char (n mod 10)])"

declare show_nat.simps [simp del]

definition show_int :: "int \<Rightarrow> string" where
  "show_int i = (if i < 0 then CHR ''-'' # show_nat (nat (- i)) else show_nat (nat i))"

definition hex_char :: "nat \<Rightarrow> char" where
  "hex_char d = (if d < 10 then char_of (48 + d) else char_of (87 + d))"

definition escape_char :: "char \<Rightarrow> string" where
  "escape_char c =
     (if c = CHR 0x22 then [CHR 0x5C, CHR 0x22]
      else if c = CHR 0x5C then [CHR 0x5C, CHR 0x5C]
      else if c = CHR 0x08 then [CHR 0x5C, CHR ''b'']
      else if c = CHR 0x0C then [CHR 0x5C, CHR ''f'']
      else if c = CHR 0x0A then [CHR 0x5C, CHR ''n'']
      else if c = CHR 0x0D then [CHR 0x5C, CHR ''r'']
      else if c = CHR 0x09 then [CHR 0x5C, CHR ''t'']
      else if of_char c < (32::nat)
        then [CHR 0x5C, CHR ''u'', CHR ''0'', CHR ''0'',
              hex_char (of_char c div 16), hex_char (of_char c mod 16)]
      else [c])"

definition quote :: "string \<Rightarrow> string" where
  "quote s = CHR 0x22 # concat (map escape_char s) @ [CHR 0x22]"

fun join :: "string \<Rightarrow> string list \<Rightarrow> string" where
  "join sep [] = []"
| "join sep [x] = x"
| "join sep (x # y # ys) = x @ sep @ join sep (y # ys)"

fun JSON_stringify :: "json \<Rightarrow> string" where
  "JSON_stringify JNull = ''null''"
| "JSON_stringify (JBool b) = (if b then ''true'' else ''false'')"
| "JSON_stringify (JNumber n) = show_int n"
| "JSON_stringify (JString s) = quote s"
| "JSON_stringify (JArray xs) = ''['' @ join '','' (map JSON_stringify xs) @ '']''"
| "JSON_stringify (JObject kvs) =
     ''{'' @ join '','' (map (\<lambda>(k, v). quote k @ '':'' @ JSON_stringify v) kvs) @ ''}''"

definition is_ws :: "char \<Rightarrow> bool" where
  "is_ws c = (c = CHR '' '' \<or> c = CHR 0x09 \<or> c = CHR 0x0A \<or> c = CHR 0x0D)"

definition skip_ws :: "string \<Rightarrow> string" where
  "skip_ws s = dropWhile is_ws s"

definition is_digit :: "char \<Rightarrow> bool" where
  "is_digit c = (48 \<le> (of_char c :: nat) \<and> (of_char c :: nat) \<le> 57)"

definition hex_value :: "char \<Rightarrow> nat option" where
  "hex_value c =
     (let n = of_char c in
      if 48 \<le> n \<and> n \<le> 57 then Some (n - 48)
      else if 97 \<le> n \<and> n \<le> 102 then Some (n - 87)
      else if 65 \<le> n \<and> n \<le> 70 then Some (n - 55)
      else None)"

definition hex4 :: "char \<Rightarrow> char \<Rightarrow> char \<Rightarrow> char \<Rightarrow> nat option" where
  "hex4 h1 h2 h3 h4 =
     (case hex_value h1 of None \<Rightarrow> None | Some a \<Rightarrow>
      case hex_value h2 of None \<Rightarrow> None | Some b \<Rightarrow>
      case hex_value h3 of None \<Rightarrow> None | Some c \<Rightarrow>
      case hex_value h4 of None \<Rightarrow> None | Some d \<Rightarrow>
        Some (((a * 16 + b) * 16 + c) * 16 + d))"

definition unescape :: "char \<Rightarrow> char option" where
  "unescape e =
     (if e = CHR 0x22 then Some (CHR 0x22)
      else if e = CHR 0x5C then Some (CHR 0x5C)
      else if e = CHR ''/'' then Some (CHR ''/'')
      else if e = CHR ''b'' then Some (CHR 0x08)
      else if e = CHR ''f'' then Some (CHR 0x0C)
      else if e = CHR ''n'' then Some (CHR 0x0A)
      else if e = CHR ''r'' then Some (CHR 0x0D)
      else if e = CHR ''t'' then Some (CHR 0x09)
      else None)"

definition cons_fst :: "'a \<Rightarrow> ('a list \<times> 'b) option \<Rightarrow> ('a list \<times> 'b) option" where
  "cons_fst x res = (case res of None \<Rightarrow> None | Some (xs, r) \<Rightarrow> Some (x # xs, r))"

fun parse_chars :: "string \<Rightarrow> (string \<times> string) option" where
  "parse_chars [] = None"
| "parse_chars (c # cs) =
     (if c = CHR 0x22 then Some ([], cs)
      else if c = CHR 0x5C then
        (case cs of
           [] \<Rightarrow> None
         | e # cs1 \<Rightarrow>
             if e = CHR ''u'' then
               (case cs1 of
                  h1 # h2 # h3 # h4 # cs2 \<Rightarrow>
                    (case hex4 h1 h2 h3 h4 of
                       None \<Rightarrow> None
                     | Some n \<Rightarrow> if n < 256 then cons_fst (char_of n) (parse_chars cs2) else None)
                | _ \<Rightarrow> None)
             else
               (case unescape e of
                  None \<Rightarrow> None
                | Some x \<Rightarrow> cons_fst x (parse_chars cs1)))
      else if (of_char c :: nat) < 32 then None
      else cons_fst c (parse_chars cs))"

definition digits_value :: "string \<Rightarrow> nat" where
  "digits_value ds = foldl (\<lambda>acc c. 10 * acc + (of_char c - 48)) 0 ds"

definition parse_nat :: "string \<Rightarrow> (nat \<times> string) option" where
  "parse_nat s =
     (let ds = takeWhile is_digit s; r = dropWhile is_digit s in
      if ds = [] then None
      else if hd ds = CHR ''0'' \<and> 1 < length ds then None
      else if r \<noteq> [] \<and> (hd r = CHR ''.'' \<or> hd r = CHR ''e'' \<or> hd r = CHR ''E'') then None
      else Some (digits_value ds, r))"

definition parse_number :: "string \<Rightarrow> (json \<times> string) option" where
  "parse_number s =
     (case s of
        [] \<Rightarrow> None
      | c # r \<Rightarrow>
          if c = CHR ''-''
          then (case parse_nat r of None \<Rightarrow> None | Some (n, r1) \<Rightarrow> Some (JNumber (- int n), r1))
          else (case parse_nat s of None \<Rightarrow> None | Some (n, r1) \<Rightarrow> Some (JNumber (int n), r1)))"

fun strip_prefix :: "string \<Rightarrow> string \<Rightarrow> string option" where
  "strip_prefix [] s = Some s"
| "strip_prefix (p # ps) [] = None"
| "strip_prefix (p # ps) (c # cs) = (if p = c then strip_prefix ps cs else None)"

definition literal :: "json \<Rightarrow> string \<Rightarrow> string \<Rightarrow> (json \<times> string) option" where
  "literal v p s = (case strip_prefix p s of None \<Rightarrow> None | Some r \<Rightarrow> Some (v, r))"

fun parse_value :: "nat \<Rightarrow> string \<Rightarrow> (json \<times> string) option"
  and parse_elements :: "nat \<Rightarrow> string \<Rightarrow> (json list \<times> string) option"
  and parse_members :: "nat \<Rightarrow> string \<Rightarrow> ((string \<times> json) list \<times> string) option"
where
  "parse_value 0 s = None"
| "parse_value (Suc n) s =
     (case skip_ws s of
        [] \<Rightarrow> None
      | c # r \<Rightarrow>
          if c = CHR ''n'' then literal JNull ''ull'' r
          else if c = CHR ''t'' then literal (JBool True) ''rue'' r
          else if c = CHR ''f'' then literal (JBool False) ''alse'' r
          else if c = CHR 0x22 then
            (case parse_chars r of None \<Rightarrow> None | Some (x, r1) \<Rightarrow> Some (JString x, r1))
          else if c = CHR ''['' then
            (case skip_ws r of
               [] \<Rightarrow> None
             | d # r1 \<Rightarrow>
                 if d = CHR '']'' then Some (JArray [], r1)
                 else (case parse_elements n r of
                         None \<Rightarrow> None
                       | Some (xs, r2) \<Rightarrow> Some (JArray xs, r2)))
          else if c = CHR ''{'' then
            (case skip_ws r of
               [] \<Rightarrow> None
             | d # r1 \<Rightarrow>
                 if d = CHR ''}'' then Some (JObject [], r1)
                 else (case parse_members n r of
                         None \<Rightarrow> None
                       | Some (kvs, r2) \<Rightarrow> Some (JObject kvs, r2)))
          else parse_number (c # r))"
| "parse_elements 0 s = None"
| "parse_elements (Suc n) s =
     (case parse_value n s of
        None \<Rightarrow> None
      | Some (v, r) \<Rightarrow>
          (case skip_ws r of
             [] \<Rightarrow> None
           | c # r1 \<Rightarrow>
               if c = CHR '','' then cons_fst v (parse_elements n r1)
               else if c = CHR '']'' then Some ([v], r1)
               else None))"
| "parse_members 0 s = None"
| "parse_members (Suc n) s =
     (case skip_ws s of
        [] \<Rightarrow> None
      | q # r \<Rightarrow>
          if q \<noteq> CHR 0x22 then None
          else
            (case parse_chars r of
               None \<Rightarrow> None
             | Some (k, r1) \<Rightarrow>
                 (case skip_ws r1 of
                    [] \<Rightarrow> None
                  | c # r2 \<Rightarrow>
                      if c \<noteq> CHR '':'' then None
                      else
                        (case parse_value n r2 of
                           None \<Rightarrow> None
                         | Some (v, r3) \<Rightarrow>
                             (case skip_ws r3 of
                                [] \<Rightarrow> None
                              | d # r4 \<Rightarrow>
                                  if d = CHR '','' then cons_fst (k, v) (parse_members n r4)
                                  else if d = CHR ''}'' then Some ([(k, v)], r4)
                                  else None)))))"

definition JSON_parse :: "string \<Rightarrow> json option" where
  "JSON_parse s =
     (case parse_value (Suc (length s)) s of
        None \<Rightarrow> None
      | Some (v, r) \<Rightarrow> if skip_ws r = [] then Some v else None)"

subsection \<open>Property access and coercion on parsed values\<close>

text \<open>
  \<open>parsed.name\<close>: the value of the member, \<open>None\<close> for \<open>undefined\<close> (no such member, or
  the value is not an object). Where a text repeats a key, the last occurrence wins.
  Reading a property of \<open>null\<close> throws; the callers below handle that case themselves.
\<close>

definition property :: "json \<Rightarrow> string \<Rightarrow> json option" where
  "property v name = (case v of JObject kvs \<Rightarrow> map_of (rev kvs) name | _ \<Rightarrow> None)"

text \<open>
  The number a value is coerced to in \<open>Date.now() - parsed.timestamp\<close>. A number that
  is not an integer can arise from a string, so the result is a decimal \<open>m * 10 ^ e\<close>, an
  infinity or NaN. Arithmetic on these numbers is exact: the rounding of the platform's
  double precision is not modelled.
\<close>

datatype number = NaN | PosInfinity | NegInfinity | Decimal int int

definition negate :: "number \<Rightarrow> number" where
  "negate x =
     (case x of
        NaN \<Rightarrow> NaN
      | PosInfinity \<Rightarrow> NegInfinity
      | NegInfinity \<Rightarrow> PosInfinity
      | Decimal m e \<Rightarrow> Decimal (- m) e)"

text \<open>\<open>a - x > d\<close>; a comparison with NaN is false.\<close>

definition difference_exceeds :: "int \<Rightarrow> number \<Rightarrow> int \<Rightarrow> bool" where
  "difference_exceeds a x d =
     (case x of
        NaN \<Rightarrow> False
      | PosInfinity \<Rightarrow> False
      | NegInfinity \<Rightarrow> True
      | Decimal m e \<Rightarrow>
          if 0 \<le> e then a - m * 10 ^ nat e > d else (a - d) * 10 ^ nat (- e) > m)"

text \<open>
  The number a string stands for: white space around it is dropped; the empty string is
  0; then a binary, octal or hexadecimal integer after \<open>0b\<close>, \<open>0o\<close>, \<open>0x\<close>, or a decimal
  with an optional sign, digits, an optional fraction and an optional exponent, or
  \<open>Infinity\<close>; anything else is NaN.
\<close>

definition is_str_ws :: "char \<Rightarrow> bool" where
  "is_str_ws c =
     (c = CHR 0x09 \<or> c = CHR 0x0A \<or> c = CHR 0x0B \<or> c = CHR 0x0C \<or> c = CHR 0x0D
      \<or> c = CHR 0x20 \<or> c = CHR 0xA0)"

definition trim :: "string \<Rightarrow> string" where
  "trim s = rev (dropWhile is_str_ws (rev (dropWhile is_str_ws s)))"

definition digit_in :: "nat \<Rightarrow> char \<Rightarrow> nat option" where
  "digit_in b c =
     (case hex_value c of None \<Rightarrow> None | Some d \<Rightarrow> if d < b then Some d else None)"

definition radix_value :: "nat \<Rightarrow> string \<Rightarrow> nat option" where
  "radix_value b s =
     (if s = [] then None
      else (case those (map (digit_in b) s) of
              None \<Rightarrow> None
            | Some ds \<Rightarrow> Some (foldl (\<lambda>acc d. b * acc + d) 0 ds)))"

definition exponent_part :: "string \<Rightarrow> int option" where
  "exponent_part s =
     (case s of
        [] \<Rightarrow> Some 0
      | c # r \<Rightarrow>
          if c = CHR ''e'' \<or> c = CHR ''E'' then
            (case r of
               [] \<Rightarrow> None
             | d # r1 \<Rightarrow>
                 if d = CHR ''+'' then map_option int (radix_value 10 r1)
                 else if d = CHR ''-'' then map_option (\<lambda>n. - int n) (radix_value 10 r1)
                 else map_option int (radix_value 10 r))
          else None)"

definition unsigned_decimal :: "string \<Rightarrow> number" where
  "unsigned_decimal s =
     (if s = ''Infinity'' then PosInfinity
      else
        (let ip = takeWhile is_digit s;
             r1 = dropWhile is_digit s;
             has_point = (r1 \<noteq> [] \<and> hd r1 = CHR ''.'');
             fp = (if has_point then takeWhile is_digit (tl r1) else []);
             r2 = (if has_point then dropWhile is_digit (tl r1) else r1)
         in if ip = [] \<and> fp = [] then NaN
            else (case exponent_part r2 of
                    None \<Rightarrow> NaN
                  | Some e \<Rightarrow> Decimal (int (digits_value (ip @ fp))) (e - int (length fp)))))"

definition radix_literal :: "nat \<Rightarrow> string \<Rightarrow> number" where
  "radix_literal b s = (case radix_value b s of None \<Rightarrow> NaN | Some n \<Rightarrow> Decimal (int n) 0)"

definition StringToNumber :: "string \<Rightarrow> number" where
  "StringToNumber s =
     (case trim s of
        [] \<Rightarrow> Decimal 0 0
      | c # r \<Rightarrow>
          if c = CHR ''0'' \<and> r \<noteq> [] \<and> (hd r = CHR ''x'' \<or> hd r = CHR ''X'')
            then radix_literal 16 (tl r)
          else if c = CHR ''0'' \<and> r \<noteq> [] \<and> (hd r = CHR ''o'' \<or> hd r = CHR ''O'')
            then radix_literal 8 (tl r)
          else if c = CHR ''0'' \<and> r \<noteq> [] \<and> (hd r = CHR ''b'' \<or> hd r = CHR ''B'')
            then radix_literal 2 (tl r)
          else if c = CHR ''+'' then unsigned_decimal r
          else if c = CHR ''-'' then negate (unsigned_decimal r)
          else unsigned_decimal (c # r))"

text \<open>
  The string of a value, as the coercion of an array or an object to a number goes
  through it; \<open>None\<close> is the \<open>TypeError\<close>. A number is written in decimal (from \<open>10 ^ 21\<close>
  on the platform writes an exponent, which stands for the same number). An array is its
  elements joined by commas, with \<open>null\<close> as the empty string. A parsed object is \<open>[object Object]\<close>, unless it has a member
  named \<open>toString\<close>: that member is not a function and hides the inherited one, and the
  conversion throws.
\<close>

fun to_string :: "json \<Rightarrow> string option" where
  "to_string JNull = Some ''null''"
| "to_string (JBool b) = Some (if b then ''true'' else ''false'')"
| "to_string (JNumber n) = Some (show_int n)"
| "to_string (JString s) = Some s"
| "to_string (JArray xs) =
     (case those (map (\<lambda>x. if x = JNull then Some [] else to_string x) xs) of
        None \<Rightarrow> None
      | Some ts \<Rightarrow> Some (join '','' ts))"
| "to_string (JObject kvs) =
     (if ''toString'' \<in> set (map fst kvs) then None else Some ''[object Object]'')"

text \<open>
  \<open>to_number\<close>: \<open>None\<close> is the \<open>TypeError\<close>. \<open>undefined\<close> gives NaN, \<open>null\<close> gives 0, a boolean
  0 or 1, a string its number; an array or an object is turned into its string first.
\<close>

definition to_number :: "json option \<Rightarrow> number option" where
  "to_number v =
     (case v of
        None \<Rightarrow> Some NaN
      | Some JNull \<Rightarrow> Some (Decimal 0 0)
      | Some (JBool b) \<Rightarrow> Some (Decimal (if b then 1 else 0) 0)
      | Some (JNumber n) \<Rightarrow> Some (Decimal n 0)
      | Some (JString s) \<Rightarrow> Some (StringToNumber s)
      | Some (JArray xs) \<Rightarrow> map_option StringToNumber (to_string (JArray xs))
      | Some (JObject kvs) \<Rightarrow> map_option StringToNumber (to_string (JObject kvs)))"

text \<open>
  TypeScript gives \<open>loadBookmarks\<close> the type \<open>Promise<string[]>\<close> and the model keeps it:
  \<open>string_array\<close> reads a parsed value as an array of strings. A text that is valid JSON
  but holds anything else has no image in that type (the source would hand it on
  unchecked); only \<open>saveBookmarks\<close> writes the key, and it writes arrays of strings.
\<close>

definition string_of :: "json \<Rightarrow> string option" where
  "string_of v = (case v of JString s \<Rightarrow> Some s | _ \<Rightarrow> None)"

definition string_array :: "json \<Rightarrow> string list option" where
  "string_array v = (case v of JArray xs \<Rightarrow> those (map string_of xs) | _ \<Rightarrow> None)"

section \<open>The storage service (services/storage.ts, in src/unnamed/part_009)\<close>

subsection \<open>AsyncStorage\<close>

text \<open>
  The key-value store of the platform: string keys, string values. Its promises can
  reject; \<open>failing\<close> says whether the device currently rejects every operation. Each
  operation returns its outcome together with the store after it, so that every effect
  on the persistent data is visible in a result.
\<close>

datatype error = StorageError

record AsyncStorage =
  entries :: "string \<rightharpoonup> string"
  failing :: bool

definition setItem :: "string \<Rightarrow> string \<Rightarrow> AsyncStorage \<Rightarrow> (error + unit) \<times> AsyncStorage" where
  "setItem key val st =
     (if failing st then (Inl StorageError, st)
      else (Inr (), st\<lparr>entries := (entries st)(key \<mapsto> val)\<rparr>))"

definition getItem :: "string \<Rightarrow> AsyncStorage \<Rightarrow> (error + string option) \<times> AsyncStorage" where
  "getItem key st =
     (if failing st then (Inl StorageError, st) else (Inr (entries st key), st))"

definition KEYS_BOOKMARKS :: string where
  "KEYS_BOOKMARKS = ''bookmarks''"

definition KEYS_NEWS_CACHE :: string where
  "KEYS_NEWS_CACHE = ''news_cache''"

subsection \<open>Bookmarks\<close>

text \<open>
  Every function of the service wraps its body in \<open>try\<close>/\<open>catch\<close> and only logs what it
  catches: its promise always resolves, so its outcome is \<open>Inr\<close> on every branch.
  \<open>saveBookmarks\<close> resolves to nothing whether or not \<open>setItem\<close> was rejected.
\<close>

definition saveBookmarks :: "string list \<Rightarrow> AsyncStorage \<Rightarrow> (error + unit) \<times> AsyncStorage" where
  "saveBookmarks bookmarks st =
     (case setItem KEYS_BOOKMARKS (JSON_stringify (JArray (map JString bookmarks))) st of
        (Inr u, st1) \<Rightarrow> (Inr (), st1)
      | (Inl e, st1) \<Rightarrow> (Inr (), st1))"

text \<open>
  \<open>data ? JSON.parse(data) : []\<close>: \<open>null\<close> and the empty string are falsy. A rejected read
  and a \<open>SyntaxError\<close> of \<open>JSON.parse\<close> are caught and give the empty list.
\<close>

definition loadBookmarks :: "AsyncStorage \<Rightarrow> (error + string list) \<times> AsyncStorage" where
  "loadBookmarks st =
     (case getItem KEYS_BOOKMARKS st of
        (Inl e, st1) \<Rightarrow> (Inr [], st1)
      | (Inr None, st1) \<Rightarrow> (Inr [], st1)
      | (Inr (Some data), st1) \<Rightarrow>
          if data = [] then (Inr [], st1)
          else (case JSON_parse data of
                  None \<Rightarrow> (Inr [], st1)
                | Some parsed \<Rightarrow>
                    (case string_array parsed of
                       None \<Rightarrow> (Inr [], st1)
                     | Some ids \<Rightarrow> (Inr ids, st1))))"

subsection \<open>The news cache\<close>

text \<open>The payload has type \<open>any\<close>: a JSON value. \<open>Date.now()\<close> is the argument \<open>now\<close>.\<close>

definition cacheNews :: "json \<Rightarrow> timestamp \<Rightarrow> AsyncStorage \<Rightarrow> (error + unit) \<times> AsyncStorage" where
  "cacheNews news now st =
     (let cacheData = JObject [(''data'', news), (''timestamp'', JNumber now)] in
      case setItem KEYS_NEWS_CACHE (JSON_stringify cacheData) st of
        (Inr u, st1) \<Rightarrow> (Inr (), st1)
      | (Inl e, st1) \<Rightarrow> (Inr (), st1))"

definition DAY_MILLIS :: int where
  "DAY_MILLIS = 24 * 60 * 60 * 1000"

text \<open>
  The promise resolves to the payload or to \<open>null\<close>; \<open>null\<close> and \<open>undefined\<close> are both
  \<open>JNull\<close>. Reading \<open>parsed.timestamp\<close> of \<open>null\<close> throws a \<open>TypeError\<close>, and so can the
  coercion of the timestamp; both are caught. An entry whose timestamp is NaN is not
  expired.
\<close>

definition loadCachedNews :: "timestamp \<Rightarrow> AsyncStorage \<Rightarrow> (error + json) \<times> AsyncStorage" where
  "loadCachedNews now st =
     (case getItem KEYS_NEWS_CACHE st of
        (Inl e, st1) \<Rightarrow> (Inr JNull, st1)
      | (Inr None, st1) \<Rightarrow> (Inr JNull, st1)
      | (Inr (Some data), st1) \<Rightarrow>
          if data = [] then (Inr JNull, st1)
          else (case JSON_parse data of
                  None \<Rightarrow> (Inr JNull, st1)
                | Some parsed \<Rightarrow>
                    if parsed = JNull then (Inr JNull, st1)
                    else
                      (case to_number (property parsed ''timestamp'') of
                         None \<Rightarrow> (Inr JNull, st1)
                       | Some x \<Rightarrow>
                           (let isExpired = difference_exceeds now x DAY_MILLIS
                            in (if isExpired then Inr JNull
                                else Inr (case property parsed ''data'' of
                                            None \<Rightarrow> JNull
                                          | Some d \<Rightarrow> d),
                                st1)))))"

section \<open>The bookmarks slice (src/store/slices/bookmarksSlice.ts)\<close>

record BookmarksState =
  items :: "string list"
  isLoading :: bool
  error :: "string option"
  lastUpdated :: "timestamp option"

definition initialState :: BookmarksState where
  "initialState = \<lparr>items = [], isLoading = False, error = None, lastUpdated = None\<rparr>"

subsection \<open>Reducers\<close>

text \<open>
  The reducers are written against an Immer draft; the model returns the next state.
  \<open>state.items.includes(articleId)\<close> is membership, \<open>push\<close> appends at the end. A reducer
  that calls \<open>Date.now()\<close> takes the current time as its first argument.
\<close>

definition addBookmark :: "timestamp \<Rightarrow> string \<Rightarrow> BookmarksState \<Rightarrow> BookmarksState" where
  "addBookmark now articleId state =
     (if articleId \<notin> set (items state)
      then state\<lparr>items := items state @ [articleId], lastUpdated := Some now\<rparr>
      else state)"

definition removeBookmark :: "timestamp \<Rightarrow> string \<Rightarrow> BookmarksState \<Rightarrow> BookmarksState" where
  "removeBookmark now articleId state =
     state\<lparr>items := filter (\<lambda>i. i \<noteq> articleId) (items state), lastUpdated := Some now\<rparr>"

definition clearAllBookmarks :: "timestamp \<Rightarrow> BookmarksState \<Rightarrow> BookmarksState" where
  "clearAllBookmarks now state = state\<lparr>items := [], lastUpdated := Some now\<rparr>"

definition clearError :: "BookmarksState \<Rightarrow> BookmarksState" where
  "clearError state = state\<lparr>error := None\<rparr>"

text \<open>A run of \<open>addBookmark\<close> actions, each with the time at which it is reduced.\<close>

definition addBookmarks :: "(timestamp \<times> string) list \<Rightarrow> BookmarksState \<Rightarrow> BookmarksState" where
  "addBookmarks acts state = foldl (\<lambda>s (now, articleId). addBookmark now articleId s) state acts"

subsection \<open>Async thunks\<close>

text \<open>
  A thunk made by \<open>createAsyncThunk\<close> dispatches \<open>pending\<close>, runs its payload creator and
  dispatches \<open>fulfilled\<close> with the returned value, or \<open>rejected\<close> with the value given to
  \<open>rejectWithValue\<close>. The two messages are Chinese texts in the source
  (load failed, save failed); the model names them in ASCII.
\<close>

datatype 'a outcome = Fulfilled 'a | Rejected string

definition MSG_LOAD_FAILED :: string where
  "MSG_LOAD_FAILED = ''load bookmarks failed''"

definition MSG_SAVE_FAILED :: string where
  "MSG_SAVE_FAILED = ''save bookmarks failed''"

text \<open>
  The payload creators: \<open>try { ... return value } catch { return rejectWithValue(msg) }\<close>.
  The \<open>catch\<close> is the \<open>Inl\<close> branch.
\<close>

definition loadBookmarksAsync_payload :: "AsyncStorage \<Rightarrow> string list outcome \<times> AsyncStorage" where
  "loadBookmarksAsync_payload st =
     (case loadBookmarks st of
        (Inr bookmarks, st1) \<Rightarrow> (Fulfilled bookmarks, st1)
      | (Inl e, st1) \<Rightarrow> (Rejected MSG_LOAD_FAILED, st1))"

definition saveBookmarksAsync_payload ::
    "string list \<Rightarrow> AsyncStorage \<Rightarrow> string list outcome \<times> AsyncStorage" where
  "saveBookmarksAsync_payload bookmarks st =
     (case saveBookmarks bookmarks st of
        (Inr u, st1) \<Rightarrow> (Fulfilled bookmarks, st1)
      | (Inl e, st1) \<Rightarrow> (Rejected MSG_SAVE_FAILED, st1))"

text \<open>The cases of \<open>extraReducers\<close>.\<close>

definition loadBookmarksAsync_pending :: "BookmarksState \<Rightarrow> BookmarksState" where
  "loadBookmarksAsync_pending state = state\<lparr>isLoading := True, error := None\<rparr>"

definition loadBookmarksAsync_fulfilled ::
    "timestamp \<Rightarrow> string list \<Rightarrow> BookmarksState \<Rightarrow> BookmarksState" where
  "loadBookmarksAsync_fulfilled now payload state =
     state\<lparr>isLoading := False, items := payload, lastUpdated := Some now\<rparr>"

definition loadBookmarksAsync_rejected :: "string \<Rightarrow> BookmarksState \<Rightarrow> BookmarksState" where
  "loadBookmarksAsync_rejected payload state = state\<lparr>isLoading := False, error := Some payload\<rparr>"

definition saveBookmarksAsync_pending :: "BookmarksState \<Rightarrow> BookmarksState" where
  "saveBookmarksAsync_pending state = state\<lparr>isLoading := True, error := None\<rparr>"

definition saveBookmarksAsync_fulfilled ::
    "timestamp \<Rightarrow> string list \<Rightarrow> BookmarksState \<Rightarrow> BookmarksState" where
  "saveBookmarksAsync_fulfilled now payload state =
     state\<lparr>isLoading := False, items := payload, lastUpdated := Some now\<rparr>"

definition saveBookmarksAsync_rejected :: "string \<Rightarrow> BookmarksState \<Rightarrow> BookmarksState" where
  "saveBookmarksAsync_rejected payload state = state\<lparr>isLoading := False, error := Some payload\<rparr>"

section \<open>Selectors (store/selectors/bookmarksSelectors.ts, after src/store/slices/uiSlice.ts)\<close>

text \<open>Of the root state only the bookmarks slice matters to the selectors.\<close>

record RootState =
  bookmarks :: BookmarksState

definition selectBookmarksState :: "RootState \<Rightarrow> BookmarksState" where
  "selectBookmarksState state = bookmarks state"

definition selectBookmarkItems :: "RootState \<Rightarrow> string list" where
  "selectBookmarkItems state = items (selectBookmarksState state)"

definition selectBookmarkCount :: "RootState \<Rightarrow> nat" where
  "selectBookmarkCount state = length (selectBookmarkItems state)"

definition selectIsBookmarked :: "RootState \<Rightarrow> string \<Rightarrow> bool" where
  "selectIsBookmarked state articleId = (articleId \<in> set (selectBookmarkItems state))"

definition selectBookmarksLoading :: "RootState \<Rightarrow> bool" where
  "selectBookmarksLoading state = isLoading (selectBookmarksState state)"

section \<open>The store (store/index.ts, after src/store/api/newsApi.ts)\<close>

text \<open>
  The store: \<open>configureStore\<close> builds the root state from the initial state of each slice.
  The only middleware added is that of the news API, so dispatching a plain slice action
  runs the slice reducer and nothing else. \<open>app\<close> pairs the store with the storage.
\<close>

type_synonym app = "RootState \<times> AsyncStorage"

definition store_initial :: RootState where
  "store_initial = \<lparr>bookmarks = initialState\<rparr>"

definition reduce :: "(BookmarksState \<Rightarrow> BookmarksState) \<Rightarrow> RootState \<Rightarrow> RootState" where
  "reduce r state = state\<lparr>bookmarks := r (bookmarks state)\<rparr>"

text \<open>
  Dispatching the action of \<open>addBookmark\<close>. The action creator that \<open>createSlice\<close> makes
  builds the action object from the slice name, the reducer name and the payload;
  \<open>dispatch\<close> runs the reducers and returns the action it was given. The reducer itself
  returns nothing.
\<close>

definition addBookmark_action :: "string \<Rightarrow> json" where
  "addBookmark_action articleId =
     JObject [(''type'', JString ''bookmarks/addBookmark''), (''payload'', JString articleId)]"

definition dispatch_addBookmark :: "timestamp \<Rightarrow> string \<Rightarrow> RootState \<Rightarrow> json \<times> RootState" where
  "dispatch_addBookmark now articleId state =
     (addBookmark_action articleId, reduce (addBookmark now articleId) state)"

text \<open>
  Dispatching a thunk. \<open>now\<close> is the time at which the \<open>fulfilled\<close> action is reduced.
\<close>

definition loadBookmarksAsync :: "timestamp \<Rightarrow> app \<Rightarrow> app" where
  "loadBookmarksAsync now app =
     (case app of (state, st) \<Rightarrow>
        (case loadBookmarksAsync_payload st of
           (Fulfilled payload, st1) \<Rightarrow>
             (reduce (loadBookmarksAsync_fulfilled now payload)
                (reduce loadBookmarksAsync_pending state), st1)
         | (Rejected msg, st1) \<Rightarrow>
             (reduce (loadBookmarksAsync_rejected msg)
                (reduce loadBookmarksAsync_pending state), st1)))"

definition saveBookmarksAsync :: "timestamp \<Rightarrow> string list \<Rightarrow> app \<Rightarrow> app" where
  "saveBookmarksAsync now ids app =
     (case app of (state, st) \<Rightarrow>
        (case saveBookmarksAsync_payload ids st of
           (Fulfilled payload, st1) \<Rightarrow>
             (reduce (saveBookmarksAsync_fulfilled now payload)
                (reduce saveBookmarksAsync_pending state), st1)
         | (Rejected msg, st1) \<Rightarrow>
             (reduce (saveBookmarksAsync_rejected msg)
                (reduce saveBookmarksAsync_pending state), st1)))"

section \<open>The news API (src/types/index.ts, src/store/api/newsApi.ts)\<close>

record Source =
  source_id :: string
  source_name :: string

record Article =
  id' :: string
  title :: string
  description :: string
  url :: string
  urlToImage :: "string option"
  publishedAt :: string
  source :: Source
  author :: "string option"
  content :: "string option"

record NewsApiResponse =
  status :: string
  totalResults :: int
  articles :: "Article list"

text \<open>
  \<open>transformResponse\<close> maps over the articles with their index. \<open>article.url || fallback\<close>
  takes the fallback when the url is the empty string. \<open>Date.now()\<close> is read once for each
  element that needs it: \<open>clock index\<close> is the time read at that element.
\<close>

definition getHeadlines_transformResponse ::
    "(nat \<Rightarrow> timestamp) \<Rightarrow> NewsApiResponse \<Rightarrow> Article list" where
  "getHeadlines_transformResponse clock response =
     map (\<lambda>(index, article).
            article\<lparr>id' := (if url article \<noteq> [] then url article
                              else ''article-'' @ show_nat index @ ''-'' @ show_int (clock index))\<rparr>)
         (enumerate 0 (articles response))"

definition searchNews_transformResponse ::
    "(nat \<Rightarrow> timestamp) \<Rightarrow> NewsApiResponse \<Rightarrow> Article list" where
  "searchNews_transformResponse clock response =
     map (\<lambda>(index, article).
            article\<lparr>id' := (if url article \<noteq> [] then url article
                              else ''search-'' @ show_nat index @ ''-'' @ show_int (clock index))\<rparr>)
         (enumerate 0 (articles response))"

definition getNewsBySource_transformResponse ::
    "(nat \<Rightarrow> timestamp) \<Rightarrow> NewsApiResponse \<Rightarrow> Article list" where
  "getNewsBySource_transformResponse clock response =
     map (\<lambda>(index, article).
            article\<lparr>id' := (if url article \<noteq> [] then url article
                              else ''source-'' @ show_nat index @ ''-'' @ show_int (clock index))\<rparr>)
         (enumerate 0 (articles response))"

section \<open>The screens\<close>

text \<open>
  What a query hook hands to a screen, and what the screen renders: of a rendered tree the
  model keeps which component fills the body and the props of every news card (the toggle
  callback apart). \<open>ErrorCard\<close> keeps the error it displays; the text shown for it is not
  modelled.
\<close>

record 'e QueryResult =
  query_data :: "Article list option"
  query_isLoading :: bool
  query_error :: "'e option"
  query_isFetching :: bool

record NewsCardProps =
  article :: Article
  isBookmarked :: bool

datatype 'e element =
    LoadingSpinner
  | ErrorCard 'e
  | EmptyState
  | FlatList "NewsCardProps list"

text \<open>\<open>ErrorBoundary\<close> (src/unnamed/part_005) renders the error in place of its children.\<close>

definition ErrorBoundary :: "'e option \<Rightarrow> 'e element \<Rightarrow> 'e element" where
  "ErrorBoundary err children = (case err of Some e \<Rightarrow> ErrorCard e | None \<Rightarrow> children)"

subsection \<open>HeadlinesScreen (src/unnamed/part_007)\<close>

definition HeadlinesScreen_isBookmarked :: "RootState \<Rightarrow> string \<Rightarrow> bool" where
  "HeadlinesScreen_isBookmarked state articleId = (articleId \<in> set (selectBookmarkItems state))"

definition HeadlinesScreen_handleBookmarkToggle :: "timestamp \<Rightarrow> string \<Rightarrow> app \<Rightarrow> app" where
  "HeadlinesScreen_handleBookmarkToggle now articleId app =
     (case app of (state, st) \<Rightarrow>
        if HeadlinesScreen_isBookmarked state articleId
        then (reduce (removeBookmark now articleId) state, st)
        else (reduce (addBookmark now articleId) state, st))"

definition HeadlinesScreen_renderNewsItem :: "RootState \<Rightarrow> Article \<Rightarrow> NewsCardProps" where
  "HeadlinesScreen_renderNewsItem state item =
     \<lparr>article = item, isBookmarked = HeadlinesScreen_isBookmarked state (id' item)\<rparr>"

text \<open>The mount effect: \<open>dispatch(loadBookmarksAsync())\<close>.\<close>

definition HeadlinesScreen_mount :: "timestamp \<Rightarrow> app \<Rightarrow> app" where
  "HeadlinesScreen_mount now app = loadBookmarksAsync now app"

definition HeadlinesScreen :: "RootState \<Rightarrow> 'e QueryResult \<Rightarrow> 'e element" where
  "HeadlinesScreen state q =
     (let articles = (case query_data q of None \<Rightarrow> [] | Some d \<Rightarrow> d) in
      if query_isLoading q \<and> articles = [] then LoadingSpinner
      else ErrorBoundary (query_error q)
             (FlatList (map (HeadlinesScreen_renderNewsItem state) articles)))"

subsection \<open>SearchScreen (src/screens/SearchScreen.tsx)\<close>

definition SearchScreen_isBookmarked :: "RootState \<Rightarrow> string \<Rightarrow> bool" where
  "SearchScreen_isBookmarked state articleId = (articleId \<in> set (selectBookmarkItems state))"

definition SearchScreen_handleBookmarkToggle :: "timestamp \<Rightarrow> string \<Rightarrow> app \<Rightarrow> app" where
  "SearchScreen_handleBookmarkToggle now articleId app =
     (case app of (state, st) \<Rightarrow>
        if SearchScreen_isBookmarked state articleId
        then (reduce (removeBookmark now articleId) state, st)
        else (reduce (addBookmark now articleId) state, st))"

definition SearchScreen_renderNewsItem :: "RootState \<Rightarrow> Article \<Rightarrow> NewsCardProps" where
  "SearchScreen_renderNewsItem state item =
     \<lparr>article = item, isBookmarked = SearchScreen_isBookmarked state (id' item)\<rparr>"

text \<open>\<open>searchResults\<close> is the component's own state, a copy of the last data of the query.\<close>

definition SearchScreen :: "RootState \<Rightarrow> Article list \<Rightarrow> 'e QueryResult \<Rightarrow> 'e element" where
  "SearchScreen state searchResults q =
     (if query_isLoading q \<or> query_isFetching q then LoadingSpinner
      else if searchResults = [] then EmptyState
      else FlatList (map (SearchScreen_renderNewsItem state) searchResults))"

subsection \<open>BookmarksScreen (src/unnamed/part_008)\<close>

definition BookmarksScreen_isBookmarked :: "RootState \<Rightarrow> string \<Rightarrow> bool" where
  "BookmarksScreen_isBookmarked state articleId = (articleId \<in> set (selectBookmarkItems state))"

definition BookmarksScreen_handleBookmarkToggle :: "timestamp \<Rightarrow> string \<Rightarrow> app \<Rightarrow> app" where
  "BookmarksScreen_handleBookmarkToggle now articleId app =
     (case app of (state, st) \<Rightarrow> (reduce (removeBookmark now articleId) state, st))"

definition BookmarksScreen_renderNewsItem :: "RootState \<Rightarrow> Article \<Rightarrow> NewsCardProps" where
  "BookmarksScreen_renderNewsItem state item =
     \<lparr>article = item, isBookmarked = BookmarksScreen_isBookmarked state (id' item)\<rparr>"

definition BookmarksScreen :: "RootState \<Rightarrow> 'e QueryResult \<Rightarrow> 'e element" where
  "BookmarksScreen state q =
     (let bookmarkItems = selectBookmarkItems state;
          allNews = (case query_data q of None \<Rightarrow> [] | Some d \<Rightarrow> d);
          bookmarkedArticles = filter (\<lambda>a. id' a \<in> set bookmarkItems) allNews
      in if selectBookmarksLoading state \<or> query_isLoading q then LoadingSpinner
         else if bookmarkedArticles = [] then EmptyState
         else FlatList (map (BookmarksScreen_renderNewsItem state) bookmarkedArticles))"

section \<open>Starting the application\<close>

text \<open>
  A start of the process creates the store afresh and mounts the first tab, the headlines
  screen, whose mount effect loads the bookmarks from the storage the previous run left.
\<close>

definition startup :: "timestamp \<Rightarrow> AsyncStorage \<Rightarrow> app" where
  "startup now st = HeadlinesScreen_mount now (store_initial, st)"

definition empty_storage :: AsyncStorage where
  "empty_storage = \<lparr>entries = Map.empty, failing = False\<rparr>"

section \<open>Sample data\<close>

text \<open>
  An article as the news service sends it, without an id, and the answer of a query that
  has succeeded with the given articles.
\<close>

definition sample_article :: "string \<Rightarrow> string \<Rightarrow> Article" where
  "sample_article t u =
     \<lparr>id' = [], title = t, description = [], url = u, urlToImage = None, publishedAt = [],
      source = \<lparr>source_id = [], source_name = []\<rparr>, author = None, content = None\<rparr>"

definition sample_response :: "Article list \<Rightarrow> NewsApiResponse" where
  "sample_response as = \<lparr>status = ''ok'', totalResults = int (length as), articles = as\<rparr>"

definition succeeded :: "Article list \<Rightarrow> string QueryResult" where
  "succeeded as =
     \<lparr>query_data = Some as, query_isLoading = False, query_error = None, query_isFetching = False\<rparr>"

section \<open>The spec's notion of expiry\<close>

text \<open>
  The expiry test of the spec, for an entry that carries its own time-to-live: expired
  when \<open>now - createdAt > ttlMillis\<close>.
\<close>

definition spec_expired :: "timestamp \<Rightarrow> int \<Rightarrow> timestamp \<Rightarrow> bool" where
  "spec_expired createdAt ttlMillis now = (now - createdAt > ttlMillis)"

section \<open>Notions used in the proofs\<close>

text \<open>
  What may follow a value inside a serialised text, the characters a serialised value can
  start with (neither white space nor a closing bracket), and the statement that a value
  is read back from its text with any sufficient fuel.
\<close>

definition delim :: "string \<Rightarrow> bool" where
  "delim r = (r = [] \<or> hd r = CHR '','' \<or> hd r = CHR '']'' \<or> hd r = CHR ''}'')"

definition starter :: "char \<Rightarrow> bool" where
  "starter c = (\<not> is_ws c \<and> c \<noteq> CHR '']'' \<and> c \<noteq> CHR ''}'')"

definition roundtrips :: "json \<Rightarrow> bool" where
  "roundtrips v = (\<forall>f rest. length (JSON_stringify v) < f \<longrightarrow> delim rest \<longrightarrow>
                     parse_value f (JSON_stringify v @ rest) = Some (v, rest))"

abbreviation member_text :: "string \<times> json \<Rightarrow> string" where
  "member_text \<equiv> (\<lambda>(k, v). quote k @ '':'' @ JSON_stringify v)"

section \<open>JSON: parsing a serialised value gives the value back\<close>

lemma of_char_digit_char: "d < 10 \<Longrightarrow> (of_char (digit_char d) :: nat) = 48 + d"
  by (simp add: digit_char_def)

lemma is_digit_digit_char: "d < 10 \<Longrightarrow> is_digit (digit_char d)"
  by (simp add: is_digit_def of_char_digit_char)

lemma show_nat_digits: "c \<in> set (show_nat n) \<Longrightarrow> is_digit c"
proof (induction n arbitrary: c rule: show_nat.induct)
  case (1 n)
  show ?case
  proof (cases "n < 10")
    case True
    with "1.prems" show ?thesis
      by (simp add: show_nat.simps [of n] is_digit_digit_char)
  next
    case False
    with "1.prems" "1.IH" show ?thesis
      by (auto simp: show_nat.simps [of n] is_digit_digit_char)
  qed
qed

lemma show_nat_nonempty: "show_nat n \<noteq> []"
  by (subst show_nat.simps) simp

lemma digits_value_snoc:
  "digits_value (ds @ [c]) = 10 * digits_value ds + (of_char c - 48)"
  by (simp add: digits_value_def)

lemma digits_value_show_nat: "digits_value (show_nat n) = n"
proof (induction n rule: show_nat.induct)
  case (1 n)
  show ?case
  proof (cases "n < 10")
    case True
    then show ?thesis
      by (simp add: show_nat.simps [of n] digits_value_def of_char_digit_char)
  next
    case False
    then have "digits_value (show_nat n) = 10 * (n div 10) + n mod 10"
      using "1.IH" by (simp add: show_nat.simps [of n] digits_value_snoc of_char_digit_char)
    then show ?thesis by simp
  qed
qed

lemma show_nat_leading_zero:
  "hd (show_nat n) = CHR ''0'' \<Longrightarrow> length (show_nat n) = 1"
proof (induction n rule: show_nat.induct)
  case (1 n)
  show ?case
  proof (cases "n < 10")
    case True
    then show ?thesis by (simp add: show_nat.simps [of n])
  next
    case False
    then have nz: "n div 10 \<noteq> 0" by simp
    from False have eq: "show_nat n = show_nat (n div 10) @ [digit_char (n mod 10)]"
      by (simp add: show_nat.simps [of n])
    with "1.prems" have "hd (show_nat (n div 10)) = CHR ''0''"
      by (simp add: show_nat_nonempty)
    with "1.IH" False have len: "length (show_nat (n div 10)) = 1" by simp
    then obtain c where c: "show_nat (n div 10) = [c]"
      by (cases "show_nat (n div 10)") auto
    with \<open>hd (show_nat (n div 10)) = CHR ''0''\<close> have "show_nat (n div 10) = ''0''" by simp
    then have "digits_value (show_nat (n div 10)) = 0"
      by (simp add: digits_value_def)
    with digits_value_show_nat [of "n div 10"] nz show ?thesis by simp
  qed
qed

lemma delim_not_digit: "delim r \<Longrightarrow> r = [] \<or> \<not> is_digit (hd r)"
  by (auto simp: delim_def is_digit_def)

lemma span_digits:
  assumes "delim r"
  shows "takeWhile is_digit (show_nat n @ r) = show_nat n"
    and "dropWhile is_digit (show_nat n @ r) = r"
proof -
  have r: "takeWhile is_digit r = []" "dropWhile is_digit r = r"
    using delim_not_digit [OF assms] by (cases r; auto)+
  show "takeWhile is_digit (show_nat n @ r) = show_nat n"
    using show_nat_digits r by (simp add: takeWhile_append2)
  show "dropWhile is_digit (show_nat n @ r) = r"
    using show_nat_digits r by (simp add: dropWhile_append2)
qed

lemma parse_nat_show_nat:
  assumes "delim r"
  shows "parse_nat (show_nat n @ r) = Some (n, r)"
proof -
  have lz: "\<not> (hd (show_nat n) = CHR ''0'' \<and> 1 < length (show_nat n))"
    using show_nat_leading_zero [of n] by auto
  have fr: "\<not> (r \<noteq> [] \<and> (hd r = CHR ''.'' \<or> hd r = CHR ''e'' \<or> hd r = CHR ''E''))"
    using assms by (auto simp: delim_def)
  show ?thesis
    using lz fr
    by (simp add: parse_nat_def Let_def span_digits [OF assms] show_nat_nonempty
        digits_value_show_nat del: One_nat_def)
qed

lemma show_nat_hd_digit: "is_digit (hd (show_nat n))"
  using show_nat_digits [of "hd (show_nat n)" n] show_nat_nonempty [of n] by simp

lemma parse_number_show_int:
  assumes "delim r"
  shows "parse_number (show_int i @ r) = Some (JNumber i, r)"
proof (cases "i < 0")
  case True
  then show ?thesis
    by (simp add: parse_number_def show_int_def parse_nat_show_nat [OF assms])
next
  case False
  obtain c cs where cs: "show_nat (nat i) = c # cs"
    using show_nat_nonempty [of "nat i"] by (cases "show_nat (nat i)") auto
  have "is_digit c" using show_nat_hd_digit [of "nat i"] cs by simp
  then have "c \<noteq> CHR ''-''" by (auto simp: is_digit_def)
  moreover have "parse_nat (c # cs @ r) = Some (nat i, r)"
    using parse_nat_show_nat [OF assms, of "nat i"] cs by simp
  ultimately show ?thesis
    using False by (simp add: parse_number_def show_int_def cs)
qed

lemma hex_value_hex_char: "d < 16 \<Longrightarrow> hex_value (hex_char d) = Some d"
  by (auto simp: hex_value_def hex_char_def Let_def)

lemma hex_value_zero: "hex_value CHR ''0'' = Some 0"
  by (simp add: hex_value_def)

lemma hex4_control:
  "n < 256 \<Longrightarrow> hex4 CHR ''0'' CHR ''0'' (hex_char (n div 16)) (hex_char (n mod 16)) = Some n"
  by (simp add: hex4_def hex_value_zero hex_value_hex_char less_mult_imp_div_less)

lemma parse_chars_escape_char:
  "parse_chars (escape_char c @ t) = cons_fst c (parse_chars t)"
proof -
  consider (special) "c = CHR 0x22 \<or> c = CHR 0x5C \<or> c = CHR 0x08 \<or> c = CHR 0x0C
                       \<or> c = CHR 0x0A \<or> c = CHR 0x0D \<or> c = CHR 0x09"
    | (control) "c \<noteq> CHR 0x22" "c \<noteq> CHR 0x5C" "c \<noteq> CHR 0x08" "c \<noteq> CHR 0x0C"
                "c \<noteq> CHR 0x0A" "c \<noteq> CHR 0x0D" "c \<noteq> CHR 0x09" "(of_char c :: nat) < 32"
    | (plain) "c \<noteq> CHR 0x22" "c \<noteq> CHR 0x5C" "\<not> (of_char c :: nat) < 32"
    by (cases "(of_char c :: nat) < 32") auto
  then show ?thesis
  proof cases
    case special
    then show ?thesis
      by (auto simp: escape_char_def unescape_def)
  next
    case control
    have "hex4 CHR ''0'' CHR ''0'' (hex_char (of_char c div 16)) (hex_char (of_char c mod 16))
            = Some (of_char c)"
      by (rule hex4_control) simp
    with control show ?thesis
      by (simp add: escape_char_def)
  next
    case plain
    then have "escape_char c = [c]"
      by (auto simp: escape_char_def)
    with plain show ?thesis by simp
  qed
qed

lemma parse_chars_escaped:
  "parse_chars (concat (map escape_char s) @ CHR 0x22 # r) = Some (s, r)"
  by (induction s) (simp_all add: parse_chars_escape_char cons_fst_def)

lemma parse_chars_quote_tail:
  "quote s @ r = CHR 0x22 # t \<Longrightarrow> parse_chars t = Some (s, r)"
  using parse_chars_escaped [of s r] by (simp add: quote_def)

lemma strip_prefix_append: "strip_prefix p (p @ r) = Some r"
  by (induction p) simp_all

lemma skip_ws_non_ws: "\<not> is_ws c \<Longrightarrow> skip_ws (c # s) = c # s"
  by (simp add: skip_ws_def)

lemma skip_ws_delim: "delim r \<Longrightarrow> skip_ws r = r"
  by (cases r) (auto simp: delim_def skip_ws_def is_ws_def)

lemma digit_starter: "is_digit c \<Longrightarrow> starter c"
  by (auto simp: is_digit_def starter_def is_ws_def)

lemma show_int_start: "\<exists>c t. show_int i = c # t \<and> starter c \<and> (c = CHR ''-'' \<or> is_digit c)"
proof (cases "i < 0")
  case True
  then show ?thesis by (simp add: show_int_def starter_def is_ws_def)
next
  case False
  obtain c cs where cs: "show_nat (nat i) = c # cs"
    using show_nat_nonempty [of "nat i"] by (cases "show_nat (nat i)") auto
  have "is_digit c" using show_nat_hd_digit [of "nat i"] cs by simp
  with False cs show ?thesis by (simp add: show_int_def digit_starter)
qed

lemma stringify_start: "\<exists>c t. JSON_stringify v = c # t \<and> starter c"
proof (cases v)
  case (JNumber i)
  then show ?thesis using show_int_start [of i] by auto
qed (auto simp: starter_def is_ws_def quote_def)

lemma quote_start: "\<exists>t. quote k = CHR 0x22 # t"
  by (simp add: quote_def)

lemma roundtrips_number: "roundtrips (JNumber i)"
  unfolding roundtrips_def
proof (intro allI impI)
  fix f rest
  assume len: "length (JSON_stringify (JNumber i)) < f" and d: "delim rest"
  from len obtain n where f: "f = Suc n" by (cases f) auto
  obtain c t where ct: "show_int i = c # t" "starter c" "c = CHR ''-'' \<or> is_digit c"
    using show_int_start [of i] by blast
  have nw: "\<not> is_ws c" using ct(2) by (simp add: starter_def)
  have other: "c \<noteq> CHR ''n''" "c \<noteq> CHR ''t''" "c \<noteq> CHR ''f''" "c \<noteq> CHR 0x22"
    "c \<noteq> CHR ''[''" "c \<noteq> CHR ''{''"
    using ct(3) by (auto simp: is_digit_def)
  have "parse_number (c # t @ rest) = Some (JNumber i, rest)"
    using parse_number_show_int [OF d, of i] ct(1) by simp
  with other show "parse_value f (JSON_stringify (JNumber i) @ rest) = Some (JNumber i, rest)"
    by (simp add: f ct(1) skip_ws_non_ws [OF nw])
qed

lemma roundtrips_atoms:
  "roundtrips JNull" "roundtrips (JBool b)" "roundtrips (JString s)"
proof -
  show "roundtrips JNull"
    unfolding roundtrips_def
  proof (intro allI impI)
    fix f rest
    assume "length (JSON_stringify JNull) < f"
    then obtain n where f: "f = Suc n" by (cases f) auto
    show "parse_value f (JSON_stringify JNull @ rest) = Some (JNull, rest)"
      by (simp add: f skip_ws_def is_ws_def literal_def)
  qed
  show "roundtrips (JBool b)"
    unfolding roundtrips_def
  proof (intro allI impI)
    fix f rest
    assume "length (JSON_stringify (JBool b)) < f"
    then obtain n where f: "f = Suc n" by (cases f) auto
    show "parse_value f (JSON_stringify (JBool b) @ rest) = Some (JBool b, rest)"
      by (simp add: f skip_ws_def is_ws_def literal_def)
  qed
  show "roundtrips (JString s)"
    unfolding roundtrips_def
  proof (intro allI impI)
    fix f rest
    assume "length (JSON_stringify (JString s)) < f"
    then obtain n where f: "f = Suc n" by (cases f) auto
    have "parse_chars (concat (map escape_char s) @ CHR 0x22 # rest) = Some (s, rest)"
      by (rule parse_chars_escaped)
    then show "parse_value f (JSON_stringify (JString s) @ rest) = Some (JString s, rest)"
      by (simp add: f quote_def skip_ws_def is_ws_def)
  qed
qed

lemma join_start:
  assumes "xs \<noteq> []" and "\<And>x. x \<in> set xs \<Longrightarrow> \<exists>c t. x = c # t \<and> starter c"
  shows "\<exists>c t. join sep xs @ u = c # t \<and> starter c"
proof -
  from assms(1) obtain x ys where xs: "xs = x # ys" by (cases xs) auto
  then obtain c t where x: "x = c # t" "starter c" using assms(2) by force
  show ?thesis
    by (cases ys) (simp_all add: xs x)
qed

lemma delim_simps: "delim (CHR '','' # r)" "delim (CHR '']'' # r)" "delim (CHR ''}'' # r)" "delim []"
  by (simp_all add: delim_def)

lemma skip_ws_starter: "starter c \<Longrightarrow> skip_ws (c # s) = c # s"
  by (simp add: starter_def skip_ws_non_ws)

lemma roundtrips_elements:
  assumes "\<And>x. x \<in> set xs \<Longrightarrow> roundtrips x"
    and "xs \<noteq> []"
    and "length (join '','' (map JSON_stringify xs)) + 1 < f"
  shows "parse_elements f (join '','' (map JSON_stringify xs) @ CHR '']'' # rest) = Some (xs, rest)"
  using assms
proof (induction xs arbitrary: f)
  case Nil
  then show ?case by simp
next
  case (Cons x xs)
  from Cons.prems(3) obtain m where f: "f = Suc m" by (cases f) auto
  have rx: "roundtrips x" using Cons.prems(1) by simp
  show ?case
  proof (cases xs)
    case Nil
    have "length (JSON_stringify x) < m"
      using Cons.prems(3) by (simp add: f Nil)
    then have "parse_value m (JSON_stringify x @ CHR '']'' # rest) = Some (x, CHR '']'' # rest)"
      using rx by (simp add: roundtrips_def delim_simps)
    then show ?thesis
      by (simp add: f Nil skip_ws_def is_ws_def)
  next
    case (Cons y ys)
    let ?tail = "join '','' (map JSON_stringify (y # ys)) @ CHR '']'' # rest"
    have "length (JSON_stringify x) < m"
      using Cons.prems(3) by (simp add: f Cons)
    then have pv: "parse_value m (JSON_stringify x @ CHR '','' # ?tail) = Some (x, CHR '','' # ?tail)"
      using rx by (simp add: roundtrips_def delim_simps)
    have len: "length (join '','' (map JSON_stringify xs)) + 1 < m"
      using Cons.prems(3) by (simp add: f Cons)
    have "parse_elements m (join '','' (map JSON_stringify xs) @ CHR '']'' # rest) = Some (xs, rest)"
    proof (rule Cons.IH)
      show "\<And>x. x \<in> set xs \<Longrightarrow> roundtrips x"
        using Cons.prems(1) by auto
      show "xs \<noteq> []" by (simp add: Cons)
      show "length (join '','' (map JSON_stringify xs)) + 1 < m" by (rule len)
    qed
    then show ?thesis
      using pv by (simp add: f Cons skip_ws_def is_ws_def cons_fst_def)
  qed
qed

lemma roundtrips_array:
  assumes "\<And>x. x \<in> set xs \<Longrightarrow> roundtrips x"
  shows "roundtrips (JArray xs)"
  unfolding roundtrips_def
proof (intro allI impI)
  fix f rest
  assume len: "length (JSON_stringify (JArray xs)) < f"
  then obtain n where f: "f = Suc n" by (cases f) auto
  let ?body = "join '','' (map JSON_stringify xs) @ CHR '']'' # rest"
  have open_br: "skip_ws (CHR ''['' # ?body) = CHR ''['' # ?body"
    by (simp add: skip_ws_def is_ws_def)
  show "parse_value f (JSON_stringify (JArray xs) @ rest) = Some (JArray xs, rest)"
  proof (cases "xs = []")
    case True
    then show ?thesis
      by (simp add: f skip_ws_def is_ws_def)
  next
    case False
    have "\<exists>c t. ?body = c # t \<and> starter c"
    proof (rule join_start)
      show "map JSON_stringify xs \<noteq> []" using False by simp
    next
      fix x
      assume "x \<in> set (map JSON_stringify xs)"
      then show "\<exists>c t. x = c # t \<and> starter c"
        using stringify_start by auto
    qed
    then obtain c t where ct: "?body = c # t" "starter c" by blast
    have sk: "skip_ws ?body = c # t"
      using ct skip_ws_starter by simp
    have nc: "c \<noteq> CHR '']''" using ct(2) by (simp add: starter_def)
    have "length (join '','' (map JSON_stringify xs)) + 1 < n"
      using len by (simp add: f)
    then have "parse_elements n ?body = Some (xs, rest)"
      using assms False by (intro roundtrips_elements) auto
    then show ?thesis
      using open_br sk nc by (simp add: f)
  qed
qed

lemma roundtrips_members:
  assumes "\<And>k v. (k, v) \<in> set kvs \<Longrightarrow> roundtrips v"
    and "kvs \<noteq> []"
    and "length (join '','' (map member_text kvs)) + 1 < f"
  shows "parse_members f (join '','' (map member_text kvs) @ CHR ''}'' # rest) = Some (kvs, rest)"
  using assms
proof (induction kvs arbitrary: f)
  case Nil
  then show ?case by simp
next
  case (Cons kv kvs)
  obtain k v where kv: "kv = (k, v)" by (cases kv)
  from Cons.prems(3) obtain m where f: "f = Suc m" by (cases f) auto
  have rv: "roundtrips v" using Cons.prems(1) [of k v] kv by simp
  have key: "\<And>u. parse_chars (concat (map escape_char k) @ CHR 0x22 # u) = Some (k, u)"
    by (rule parse_chars_escaped)
  show ?case
  proof (cases kvs)
    case Nil
    have "length (JSON_stringify v) < m"
      using Cons.prems(3) by (simp add: f Nil kv)
    then have "parse_value m (JSON_stringify v @ CHR ''}'' # rest) = Some (v, CHR ''}'' # rest)"
      using rv by (simp add: roundtrips_def delim_simps)
    then show ?thesis
      using key by (simp add: f Nil kv quote_def skip_ws_def is_ws_def)
  next
    case (Cons kv2 rest2)
    let ?tail = "join '','' (map member_text (kv2 # rest2)) @ CHR ''}'' # rest"
    have "length (JSON_stringify v) < m"
      using Cons.prems(3) by (simp add: f Cons kv)
    then have pv: "parse_value m (JSON_stringify v @ CHR '','' # ?tail) = Some (v, CHR '','' # ?tail)"
      using rv by (simp add: roundtrips_def delim_simps)
    have len: "length (join '','' (map member_text kvs)) + 1 < m"
      using Cons.prems(3) by (simp add: f Cons kv)
    have "parse_members m (join '','' (map member_text kvs) @ CHR ''}'' # rest) = Some (kvs, rest)"
    proof (rule Cons.IH)
      show "\<And>k v. (k, v) \<in> set kvs \<Longrightarrow> roundtrips v"
        using Cons.prems(1) by auto
      show "kvs \<noteq> []" by (simp add: Cons)
      show "length (join '','' (map member_text kvs)) + 1 < m" by (rule len)
    qed
    then show ?thesis
      using pv key by (simp add: f Cons kv quote_def skip_ws_def is_ws_def cons_fst_def)
  qed
qed

lemma roundtrips_object:
  assumes "\<And>k v. (k, v) \<in> set kvs \<Longrightarrow> roundtrips v"
  shows "roundtrips (JObject kvs)"
  unfolding roundtrips_def
proof (intro allI impI)
  fix f rest
  assume len: "length (JSON_stringify (JObject kvs)) < f"
  then obtain n where f: "f = Suc n" by (cases f) auto
  let ?body = "join '','' (map member_text kvs) @ CHR ''}'' # rest"
  have open_br: "skip_ws (CHR ''{'' # ?body) = CHR ''{'' # ?body"
    by (simp add: skip_ws_def is_ws_def)
  show "parse_value f (JSON_stringify (JObject kvs) @ rest) = Some (JObject kvs, rest)"
  proof (cases "kvs = []")
    case True
    then show ?thesis
      by (simp add: f skip_ws_def is_ws_def)
  next
    case False
    have "\<exists>c t. ?body = c # t \<and> starter c"
    proof (rule join_start)
      show "map member_text kvs \<noteq> []" using False by simp
    next
      fix x
      assume "x \<in> set (map member_text kvs)"
      then show "\<exists>c t. x = c # t \<and> starter c"
        by (auto simp: quote_def starter_def is_ws_def)
    qed
    then obtain c t where ct: "?body = c # t" "starter c" by blast
    have sk: "skip_ws ?body = c # t"
      using ct skip_ws_starter by simp
    have nc: "c \<noteq> CHR ''}''" using ct(2) by (simp add: starter_def)
    have "length (join '','' (map member_text kvs)) + 1 < n"
      using len by (simp add: f)
    then have "parse_members n ?body = Some (kvs, rest)"
      using assms False by (intro roundtrips_members) auto
    then show ?thesis
      using open_br sk nc by (simp add: f)
  qed
qed

lemma roundtrips_all: "roundtrips v"
proof (induction v)
  case (JArray xs)
  then show ?case by (intro roundtrips_array) simp
next
  case (JObject kvs)
  show ?case
  proof (rule roundtrips_object)
    fix k v
    assume "(k, v) \<in> set kvs"
    then show "roundtrips v"
      using JObject.IH [of "(k, v)" v] by simp
  qed
qed (simp_all add: roundtrips_atoms roundtrips_number)

theorem JSON_parse_stringify: "JSON_parse (JSON_stringify v) = Some v"
proof -
  have "parse_value (Suc (length (JSON_stringify v))) (JSON_stringify v @ []) = Some (v, [])"
    using roundtrips_all [of v] delim_simps(4) unfolding roundtrips_def by blast
  then have "parse_value (Suc (length (JSON_stringify v))) (JSON_stringify v) = Some (v, [])"
    by (simp del: parse_value.simps)
  then show ?thesis
    by (simp add: JSON_parse_def skip_ws_def del: parse_value.simps)
qed

lemma JSON_stringify_nonempty: "JSON_stringify v \<noteq> []"
  using stringify_start [of v] by auto

lemma digit_char_numerals:
  "digit_char 0 = CHR ''0''" "digit_char 2 = CHR ''2''"
  "digit_char 3 = CHR ''3''" "digit_char 4 = CHR ''4''" "digit_char 5 = CHR ''5''"
  "digit_char 6 = CHR ''6''" "digit_char 7 = CHR ''7''" "digit_char 8 = CHR ''8''"
  "digit_char 9 = CHR ''9''"
  by (simp_all add: digit_char_def char_of_eq_iff)

lemma digit_char_one: "digit_char 1 = CHR ''1''" "digit_char (Suc 0) = CHR ''1''"
proof -
  have "(48::nat) + 1 = 49" by simp
  then show "digit_char 1 = CHR ''1''"
    by (simp only: digit_char_def) (simp add: char_of_eq_iff)
  then show "digit_char (Suc 0) = CHR ''1''" by simp
qed

section \<open>The storage service\<close>

lemma string_array_strings: "string_array (JArray (map JString ids)) = Some ids"
  by (induction ids) (simp_all add: string_array_def string_of_def)

lemma saveBookmarks_healthy:
  "\<not> failing st \<Longrightarrow>
   saveBookmarks ids st =
     (Inr (), st\<lparr>entries := (entries st)(KEYS_BOOKMARKS \<mapsto> JSON_stringify (JArray (map JString ids)))\<rparr>)"
  by (simp add: saveBookmarks_def setItem_def)

lemma saveBookmarks_failing: "failing st \<Longrightarrow> saveBookmarks ids st = (Inr (), st)"
  by (simp add: saveBookmarks_def setItem_def)

lemma saveBookmarks_resolves: "fst (saveBookmarks ids st) = Inr ()"
  by (cases "failing st") (simp_all add: saveBookmarks_healthy saveBookmarks_failing)

lemma loadBookmarks_stored:
  assumes "\<not> failing st" and "entries st KEYS_BOOKMARKS = Some (JSON_stringify (JArray (map JString ids)))"
  shows "loadBookmarks st = (Inr ids, st)"
  using assms
  by (simp add: loadBookmarks_def getItem_def JSON_stringify_nonempty JSON_parse_stringify
      string_array_strings del: JSON_stringify.simps)

lemma loadBookmarks_absent:
  "entries st KEYS_BOOKMARKS = None \<Longrightarrow> loadBookmarks st = (Inr [], st)"
  by (simp add: loadBookmarks_def getItem_def)

lemma loadBookmarks_storage: "snd (loadBookmarks st) = st"
  by (auto simp: loadBookmarks_def getItem_def split: option.splits)

lemma cacheNews_healthy:
  "\<not> failing st \<Longrightarrow>
   cacheNews news now st =
     (Inr (), st\<lparr>entries := (entries st)(KEYS_NEWS_CACHE \<mapsto>
        JSON_stringify (JObject [(''data'', news), (''timestamp'', JNumber now)]))\<rparr>)"
  by (simp add: cacheNews_def setItem_def)

lemma property_cacheData:
  "property (JObject [(''data'', news), (''timestamp'', JNumber t)]) ''timestamp'' = Some (JNumber t)"
  "property (JObject [(''data'', news), (''timestamp'', JNumber t)]) ''data'' = Some news"
  by (simp_all add: property_def)

lemma loadCachedNews_stored:
  assumes "\<not> failing st"
    and "entries st KEYS_NEWS_CACHE =
           Some (JSON_stringify (JObject [(''data'', news), (''timestamp'', JNumber t)]))"
  shows "loadCachedNews now st = (Inr (if now - t > DAY_MILLIS then JNull else news), st)"
  using assms
  by (simp add: loadCachedNews_def getItem_def JSON_stringify_nonempty JSON_parse_stringify
      property_cacheData to_number_def difference_exceeds_def del: JSON_stringify.simps)

lemma loadCachedNews_storage: "snd (loadCachedNews now st) = st"
  by (auto simp: loadCachedNews_def getItem_def Let_def split: option.splits)


subsection \<open>Round trip of the bookmarks\<close>

text \<open>
  C6. Round trip of the bookmarks through the store: on a working store, loading the
  bookmarks after saving the sequence \<open>S\<close> gives \<open>S\<close> back, the same ids in the same order.
  This rests on \<open>JSON.parse\<close> reading back what \<open>JSON.stringify\<close> wrote, with every
  character of an id escaped and unescaped, and on the text never being the empty
  (falsy) string.
\<close>

theorem bookmarks_roundtrip:
  "\<not> failing st \<Longrightarrow> fst (loadBookmarks (snd (saveBookmarks S st))) = Inr S"
proof -
  assume h: "\<not> failing st"
  let ?st1 = "st\<lparr>entries := (entries st)(KEYS_BOOKMARKS \<mapsto> JSON_stringify (JArray (map JString S)))\<rparr>"
  have "loadBookmarks ?st1 = (Inr S, ?st1)"
    by (rule loadBookmarks_stored) (simp_all add: h)
  then show ?thesis
    by (simp add: saveBookmarks_healthy [OF h])
qed

theorem bookmarks_roundtrip_witness:
  "\<not> failing empty_storage
   \<and> fst (loadBookmarks (snd (saveBookmarks [''a1'', ''b2''] empty_storage))) = Inr [''a1'', ''b2'']"
  using bookmarks_roundtrip [of empty_storage "[''a1'', ''b2'']"]
  by (simp add: empty_storage_def)

subsection \<open>Expiry of the news cache\<close>

text \<open>
  C3, as stated, fails. The spec's scenario gives an entry a time-to-live of 1000 ms; the
  code has no time-to-live per entry. An entry written at time 0 is expired at time 1500
  by the spec's test, and \<open>loadCachedNews\<close> still returns its payload.
\<close>

theorem ttl_per_entry_counterexample:
  "spec_expired 0 1000 1500
   \<and> fst (loadCachedNews 1500 (snd (cacheNews (JArray [JString ''article'']) 0 empty_storage)))
       = Inr (JArray [JString ''article''])"
proof -
  have "\<not> failing empty_storage" by (simp add: empty_storage_def)
  then have "cacheNews (JArray [JString ''article'']) 0 empty_storage =
      (Inr (), empty_storage\<lparr>entries := (entries empty_storage)(KEYS_NEWS_CACHE \<mapsto>
        JSON_stringify (JObject [(''data'', JArray [JString ''article'']), (''timestamp'', JNumber 0)]))\<rparr>)"
    by (rule cacheNews_healthy)
  moreover have "loadCachedNews 1500 (empty_storage\<lparr>entries := (entries empty_storage)(KEYS_NEWS_CACHE \<mapsto>
        JSON_stringify (JObject [(''data'', JArray [JString ''article'']), (''timestamp'', JNumber 0)]))\<rparr>)
      = (Inr (if 1500 - 0 > DAY_MILLIS then JNull else JArray [JString ''article'']),
         empty_storage\<lparr>entries := (entries empty_storage)(KEYS_NEWS_CACHE \<mapsto>
        JSON_stringify (JObject [(''data'', JArray [JString ''article'']), (''timestamp'', JNumber 0)]))\<rparr>)"
    by (rule loadCachedNews_stored) (simp_all add: empty_storage_def)
  ultimately show ?thesis
    by (simp add: spec_expired_def DAY_MILLIS_def)
qed

text \<open>
  C3, amended. Every entry has the same fixed lifetime of 24 hours. For an entry written
  by \<open>cacheNews\<close> at time \<open>createdAt\<close> on a working store, \<open>loadCachedNews\<close> at time \<open>now\<close>
  returns the stored payload when \<open>now - createdAt \<le> 86400000\<close> and \<open>null\<close> when
  \<open>now - createdAt > 86400000\<close>.
\<close>

theorem ttl_fixed_one_day:
  "\<not> failing st \<Longrightarrow>
   fst (loadCachedNews now (snd (cacheNews news createdAt st)))
     = Inr (if now - createdAt \<le> 86400000 then news else JNull)"
proof -
  assume h: "\<not> failing st"
  let ?st1 = "st\<lparr>entries := (entries st)(KEYS_NEWS_CACHE \<mapsto>
        JSON_stringify (JObject [(''data'', news), (''timestamp'', JNumber createdAt)]))\<rparr>"
  have "loadCachedNews now ?st1 = (Inr (if now - createdAt > DAY_MILLIS then JNull else news), ?st1)"
    by (rule loadCachedNews_stored) (simp_all add: h)
  then show ?thesis
    by (simp add: cacheNews_healthy [OF h] DAY_MILLIS_def)
qed

theorem ttl_fixed_one_day_witness:
  "\<not> failing empty_storage
   \<and> fst (loadCachedNews 86400000 (snd (cacheNews (JString ''n'') 0 empty_storage))) = Inr (JString ''n'')
   \<and> fst (loadCachedNews 86400001 (snd (cacheNews (JString ''n'') 0 empty_storage))) = Inr JNull"
  using ttl_fixed_one_day [of empty_storage 86400000 "JString ''n''" 0]
        ttl_fixed_one_day [of empty_storage 86400001 "JString ''n''" 0]
  by (simp add: empty_storage_def)

text \<open>
  C4, as stated, fails. An entry written at time 0 is expired one millisecond after 24
  hours; the read returns \<open>null\<close>, and the storage after the read still holds the entry
  under the cache key.
\<close>

theorem expired_entry_not_deleted_counterexample:
  "fst (loadCachedNews 86400001 (snd (cacheNews (JString ''n'') 0 empty_storage))) = Inr JNull
   \<and> entries (snd (loadCachedNews 86400001 (snd (cacheNews (JString ''n'') 0 empty_storage))))
        KEYS_NEWS_CACHE \<noteq> None"
proof -
  have h: "\<not> failing empty_storage" by (simp add: empty_storage_def)
  let ?st1 = "empty_storage\<lparr>entries := (entries empty_storage)(KEYS_NEWS_CACHE \<mapsto>
        JSON_stringify (JObject [(''data'', JString ''n''), (''timestamp'', JNumber 0)]))\<rparr>"
  have "loadCachedNews 86400001 ?st1
          = (Inr (if 86400001 - 0 > DAY_MILLIS then JNull else JString ''n''), ?st1)"
    by (rule loadCachedNews_stored) (simp_all add: h)
  then show ?thesis
    by (simp add: cacheNews_healthy [OF h] DAY_MILLIS_def)
qed

text \<open>
  C4, amended. A cache read never changes the persistent store. In particular, when it
  finds an expired entry it returns \<open>null\<close> and the entry stays under the cache key as
  \<open>cacheNews\<close> wrote it.
\<close>

theorem cache_read_leaves_store:
  "snd (loadCachedNews now st) = st
   \<and> (\<not> failing st \<and> now - createdAt > 86400000 \<longrightarrow>
        fst (loadCachedNews now (snd (cacheNews news createdAt st))) = Inr JNull
        \<and> entries (snd (loadCachedNews now (snd (cacheNews news createdAt st)))) KEYS_NEWS_CACHE
            = Some (JSON_stringify (JObject [(''data'', news), (''timestamp'', JNumber createdAt)])))"
proof (intro conjI impI)
  show "snd (loadCachedNews now st) = st"
    by (rule loadCachedNews_storage)
next
  assume a: "\<not> failing st \<and> now - createdAt > 86400000"
  then have h: "\<not> failing st" by simp
  let ?st1 = "st\<lparr>entries := (entries st)(KEYS_NEWS_CACHE \<mapsto>
        JSON_stringify (JObject [(''data'', news), (''timestamp'', JNumber createdAt)]))\<rparr>"
  have l: "loadCachedNews now ?st1 = (Inr (if now - createdAt > DAY_MILLIS then JNull else news), ?st1)"
    by (rule loadCachedNews_stored) (simp_all add: h)
  show "fst (loadCachedNews now (snd (cacheNews news createdAt st))) = Inr JNull"
    using a l by (simp add: cacheNews_healthy [OF h] DAY_MILLIS_def)
  show "entries (snd (loadCachedNews now (snd (cacheNews news createdAt st)))) KEYS_NEWS_CACHE
            = Some (JSON_stringify (JObject [(''data'', news), (''timestamp'', JNumber createdAt)]))"
    using l by (simp add: cacheNews_healthy [OF h] del: JSON_stringify.simps)
qed

theorem cache_read_leaves_store_witness:
  "\<not> failing empty_storage \<and> (86400001::int) - 0 > 86400000
   \<and> fst (loadCachedNews 86400001 (snd (cacheNews (JString ''n'') 0 empty_storage))) = Inr JNull
   \<and> entries (snd (loadCachedNews 86400001 (snd (cacheNews (JString ''n'') 0 empty_storage))))
        KEYS_NEWS_CACHE
        = Some (JSON_stringify (JObject [(''data'', JString ''n''), (''timestamp'', JNumber 0)]))"
  using cache_read_leaves_store [of 86400001 empty_storage 0 "JString ''n''"]
  by (simp add: empty_storage_def del: JSON_stringify.simps)

section \<open>A failed fetch\<close>





section \<open>The identity of an article\<close>

text \<open>
  C8, as stated, fails. Two articles of one response both have the empty url; the
  transformation gives them the ids \<open>article-0-5\<close> and \<open>article-1-5\<close>.
\<close>

theorem same_url_different_id_counterexample:
  "map url (getHeadlines_transformResponse (\<lambda>i. 5)
      \<lparr>status = ''ok'', totalResults = 2, articles =
         [\<lparr>id' = [], title = ''first'', description = [], url = [], urlToImage = None,
           publishedAt = [], source = \<lparr>source_id = [], source_name = []\<rparr>,
           author = None, content = None\<rparr>,
          \<lparr>id' = [], title = ''second'', description = [], url = [], urlToImage = None,
           publishedAt = [], source = \<lparr>source_id = [], source_name = []\<rparr>,
           author = None, content = None\<rparr>]\<rparr>) = [[], []]
   \<and> map id' (getHeadlines_transformResponse (\<lambda>i. 5)
      \<lparr>status = ''ok'', totalResults = 2, articles =
         [\<lparr>id' = [], title = ''first'', description = [], url = [], urlToImage = None,
           publishedAt = [], source = \<lparr>source_id = [], source_name = []\<rparr>,
           author = None, content = None\<rparr>,
          \<lparr>id' = [], title = ''second'', description = [], url = [], urlToImage = None,
           publishedAt = [], source = \<lparr>source_id = [], source_name = []\<rparr>,
           author = None, content = None\<rparr>]\<rparr>) = [''article-0-5'', ''article-1-5'']"
  by (simp add: getHeadlines_transformResponse_def show_nat.simps show_int_def
      digit_char_numerals digit_char_one)

lemma getHeadlines_id_is_url:
  "a \<in> set (getHeadlines_transformResponse clock response) \<Longrightarrow> url a \<noteq> [] \<Longrightarrow> id' a = url a"
  by (auto simp: getHeadlines_transformResponse_def)

lemma searchNews_id_is_url:
  "a \<in> set (searchNews_transformResponse clock response) \<Longrightarrow> url a \<noteq> [] \<Longrightarrow> id' a = url a"
  by (auto simp: searchNews_transformResponse_def)

lemma getNewsBySource_id_is_url:
  "a \<in> set (getNewsBySource_transformResponse clock response) \<Longrightarrow> url a \<noteq> [] \<Longrightarrow> id' a = url a"
  by (auto simp: getNewsBySource_transformResponse_def)

text \<open>
  C8, amended. Two articles produced by the response transformations (of any endpoints,
  from any responses, at any times) that have the same non-empty url have the same id,
  namely that url.
\<close>

theorem same_nonempty_url_same_id:
  assumes "a \<in> set (getHeadlines_transformResponse ca1 ra1)
             \<union> set (searchNews_transformResponse ca2 ra2)
             \<union> set (getNewsBySource_transformResponse ca3 ra3)"
    and "b \<in> set (getHeadlines_transformResponse cb1 rb1)
             \<union> set (searchNews_transformResponse cb2 rb2)
             \<union> set (getNewsBySource_transformResponse cb3 rb3)"
    and "url a = url b" and "url a \<noteq> []"
  shows "id' a = id' b \<and> id' a = url a"
proof -
  have "id' a = url a"
    using assms(1,4) getHeadlines_id_is_url searchNews_id_is_url getNewsBySource_id_is_url
    by blast
  moreover have "id' b = url b"
    using assms(2,3,4) getHeadlines_id_is_url searchNews_id_is_url getNewsBySource_id_is_url
    by (metis Un_iff)
  ultimately show ?thesis
    using assms(3) by simp
qed

theorem same_nonempty_url_same_id_witness:
  "(sample_article ''first'' ''http://x'')\<lparr>id' := ''http://x''\<rparr>
     \<in> set (getHeadlines_transformResponse (\<lambda>i. 5) (sample_response [sample_article ''first'' ''http://x'']))
       \<union> set (searchNews_transformResponse (\<lambda>i. 5) (sample_response []))
       \<union> set (getNewsBySource_transformResponse (\<lambda>i. 5) (sample_response []))
   \<and> (sample_article ''other'' ''http://x'')\<lparr>id' := ''http://x''\<rparr>
     \<in> set (getHeadlines_transformResponse (\<lambda>i. 9) (sample_response []))
       \<union> set (searchNews_transformResponse (\<lambda>i. 9)
            (sample_response [sample_article ''zero'' [], sample_article ''other'' ''http://x'']))
       \<union> set (getNewsBySource_transformResponse (\<lambda>i. 9) (sample_response []))
   \<and> url ((sample_article ''first'' ''http://x'')\<lparr>id' := ''http://x''\<rparr>)
       = url ((sample_article ''other'' ''http://x'')\<lparr>id' := ''http://x''\<rparr>)
   \<and> url ((sample_article ''first'' ''http://x'')\<lparr>id' := ''http://x''\<rparr>) \<noteq> []
   \<and> id' ((sample_article ''first'' ''http://x'')\<lparr>id' := ''http://x''\<rparr>)
       = id' ((sample_article ''other'' ''http://x'')\<lparr>id' := ''http://x''\<rparr>)"
proof -
  have a: "(sample_article ''first'' ''http://x'')\<lparr>id' := ''http://x''\<rparr>
     \<in> set (getHeadlines_transformResponse (\<lambda>i. 5) (sample_response [sample_article ''first'' ''http://x'']))
       \<union> set (searchNews_transformResponse (\<lambda>i. 5) (sample_response []))
       \<union> set (getNewsBySource_transformResponse (\<lambda>i. 5) (sample_response []))"
    by (simp add: getHeadlines_transformResponse_def sample_response_def sample_article_def)
  have b: "(sample_article ''other'' ''http://x'')\<lparr>id' := ''http://x''\<rparr>
     \<in> set (getHeadlines_transformResponse (\<lambda>i. 9) (sample_response []))
       \<union> set (searchNews_transformResponse (\<lambda>i. 9)
            (sample_response [sample_article ''zero'' [], sample_article ''other'' ''http://x'']))
       \<union> set (getNewsBySource_transformResponse (\<lambda>i. 9) (sample_response []))"
    by (simp add: searchNews_transformResponse_def sample_response_def sample_article_def)
  have u: "url ((sample_article ''first'' ''http://x'')\<lparr>id' := ''http://x''\<rparr>)
       = url ((sample_article ''other'' ''http://x'')\<lparr>id' := ''http://x''\<rparr>)"
    by (simp add: sample_article_def)
  have n: "url ((sample_article ''first'' ''http://x'')\<lparr>id' := ''http://x''\<rparr>) \<noteq> []"
    by (simp add: sample_article_def)
  show ?thesis
    using a b u n same_nonempty_url_same_id [OF a b u n] by simp
qed

section \<open>Bookmarks and the storage\<close>

lemma toggle_leaves_storage:
  "snd (HeadlinesScreen_handleBookmarkToggle now articleId (state, st)) = st"
  "snd (SearchScreen_handleBookmarkToggle now articleId (state, st)) = st"
  "snd (BookmarksScreen_handleBookmarkToggle now articleId (state, st)) = st"
  by (simp_all add: HeadlinesScreen_handleBookmarkToggle_def SearchScreen_handleBookmarkToggle_def
      BookmarksScreen_handleBookmarkToggle_def)

lemma saveBookmarksAsync_payload_fulfilled:
  "fst (saveBookmarksAsync_payload ids st) = Fulfilled ids"
  by (cases "failing st")
     (simp_all add: saveBookmarksAsync_payload_def saveBookmarks_healthy saveBookmarks_failing)

text \<open>
  Whatever the storage does, the save thunk ends \<open>fulfilled\<close>: its \<open>rejected\<close> case is
  never reduced.
\<close>

lemma saveBookmarksAsync_never_rejected:
  "error (bookmarks (fst (saveBookmarksAsync now ids (state, st)))) = None
   \<and> items (bookmarks (fst (saveBookmarksAsync now ids (state, st)))) = ids"
  by (cases "failing st")
     (simp_all add: saveBookmarksAsync_def saveBookmarksAsync_payload_def saveBookmarks_healthy
      saveBookmarks_failing reduce_def saveBookmarksAsync_fulfilled_def
      saveBookmarksAsync_pending_def)

lemma saveBookmarksAsync_failing:
  "failing st \<Longrightarrow>
   saveBookmarksAsync now ids (state, st) =
     (reduce (saveBookmarksAsync_fulfilled now ids) (reduce saveBookmarksAsync_pending state), st)"
  by (simp add: saveBookmarksAsync_def saveBookmarksAsync_payload_def saveBookmarks_failing)

text \<open>
  C1. The code does not persist a bookmark when it is added. On a fresh store with an
  empty working storage, toggling the unbookmarked article \<open>a1\<close> on the headlines screen
  adds it to the state, so that it is bookmarked; the storage is exactly what it was; and
  after a start of the process from that storage the article is not bookmarked.
\<close>

theorem add_not_persisted:
  "selectIsBookmarked
      (fst (HeadlinesScreen_handleBookmarkToggle 1 ''a1'' (store_initial, empty_storage))) ''a1''
   \<and> snd (HeadlinesScreen_handleBookmarkToggle 1 ''a1'' (store_initial, empty_storage))
        = empty_storage
   \<and> \<not> selectIsBookmarked
        (fst (startup 2
           (snd (HeadlinesScreen_handleBookmarkToggle 1 ''a1'' (store_initial, empty_storage)))))
        ''a1''"
proof -
  have l: "loadBookmarks empty_storage = (Inr [], empty_storage)"
    by (rule loadBookmarks_absent) (simp add: empty_storage_def)
  show ?thesis
    by (simp add: toggle_leaves_storage startup_def HeadlinesScreen_mount_def
        loadBookmarksAsync_def loadBookmarksAsync_payload_def l)
       (simp add: HeadlinesScreen_handleBookmarkToggle_def HeadlinesScreen_isBookmarked_def
        selectIsBookmarked_def selectBookmarkItems_def selectBookmarksState_def store_initial_def
        initialState_def reduce_def addBookmark_def loadBookmarksAsync_fulfilled_def
        loadBookmarksAsync_pending_def)
qed

text \<open>
  C2. The code neither rolls back nor reports a failed write. With a storage that rejects
  every operation, dispatching the save thunk for \<open>[a1]\<close> on a fresh store ends
  \<open>fulfilled\<close>: the state holds \<open>[a1]\<close>, no error is set, loading has ended, and the
  storage holds no bookmarks.
\<close>

theorem failed_save_not_reported:
  "items (bookmarks (fst (saveBookmarksAsync 7 [''a1'']
      (store_initial, \<lparr>entries = Map.empty, failing = True\<rparr>)))) = [''a1'']
   \<and> error (bookmarks (fst (saveBookmarksAsync 7 [''a1'']
      (store_initial, \<lparr>entries = Map.empty, failing = True\<rparr>)))) = None
   \<and> isLoading (bookmarks (fst (saveBookmarksAsync 7 [''a1'']
      (store_initial, \<lparr>entries = Map.empty, failing = True\<rparr>)))) = False
   \<and> entries (snd (saveBookmarksAsync 7 [''a1'']
      (store_initial, \<lparr>entries = Map.empty, failing = True\<rparr>))) KEYS_BOOKMARKS = None"
  by (simp add: saveBookmarksAsync_failing reduce_def saveBookmarksAsync_fulfilled_def
      saveBookmarksAsync_pending_def store_initial_def initialState_def)

section \<open>The bookmark flag of the rendered cards\<close>

text \<open>
  C9. Whenever one of the three screens renders its list, the cards are exactly the
  articles of that list, in order, each with the flag \<open>isBookmarked\<close> equal to the
  membership test of the bookmark store for the article's id. The list is the data of the
  headlines query, the search results, or the bookmarked part of the headlines; where the
  data came from (cache or network) plays no part.
\<close>

theorem isBookmarked_flag_is_membership:
  "(HeadlinesScreen state q1 = FlatList cards \<longrightarrow>
      cards = map (\<lambda>a. \<lparr>article = a, isBookmarked = selectIsBookmarked state (id' a)\<rparr>)
                (case query_data q1 of None \<Rightarrow> [] | Some d \<Rightarrow> d))
   \<and> (SearchScreen state searchResults q2 = FlatList cards \<longrightarrow>
      cards = map (\<lambda>a. \<lparr>article = a, isBookmarked = selectIsBookmarked state (id' a)\<rparr>)
                searchResults)
   \<and> (BookmarksScreen state q3 = FlatList cards \<longrightarrow>
      cards = map (\<lambda>a. \<lparr>article = a, isBookmarked = selectIsBookmarked state (id' a)\<rparr>)
                (filter (\<lambda>a. selectIsBookmarked state (id' a))
                   (case query_data q3 of None \<Rightarrow> [] | Some d \<Rightarrow> d)))
   \<and> (\<forall>card \<in> set cards.
        HeadlinesScreen state q1 = FlatList cards \<or> SearchScreen state searchResults q2 = FlatList cards
        \<or> BookmarksScreen state q3 = FlatList cards
        \<longrightarrow> isBookmarked card = selectIsBookmarked state (id' (article card)))"
proof -
  have h: "HeadlinesScreen state q1 = FlatList cards \<Longrightarrow>
      cards = map (\<lambda>a. \<lparr>article = a, isBookmarked = selectIsBookmarked state (id' a)\<rparr>)
                (case query_data q1 of None \<Rightarrow> [] | Some d \<Rightarrow> d)"
    by (auto simp: HeadlinesScreen_def ErrorBoundary_def HeadlinesScreen_renderNewsItem_def
        HeadlinesScreen_isBookmarked_def selectIsBookmarked_def Let_def
        split: if_splits option.splits)
  have s: "SearchScreen state searchResults q2 = FlatList cards \<Longrightarrow>
      cards = map (\<lambda>a. \<lparr>article = a, isBookmarked = selectIsBookmarked state (id' a)\<rparr>)
                searchResults"
    by (auto simp: SearchScreen_def SearchScreen_renderNewsItem_def
        SearchScreen_isBookmarked_def selectIsBookmarked_def split: if_splits)
  have b: "BookmarksScreen state q3 = FlatList cards \<Longrightarrow>
      cards = map (\<lambda>a. \<lparr>article = a, isBookmarked = selectIsBookmarked state (id' a)\<rparr>)
                (filter (\<lambda>a. selectIsBookmarked state (id' a))
                   (case query_data q3 of None \<Rightarrow> [] | Some d \<Rightarrow> d))"
    by (auto simp: BookmarksScreen_def BookmarksScreen_renderNewsItem_def
        BookmarksScreen_isBookmarked_def selectIsBookmarked_def Let_def split: if_splits)
  have flag: "isBookmarked card = selectIsBookmarked state (id' (article card))"
    if "card \<in> set cards"
      and "HeadlinesScreen state q1 = FlatList cards \<or> SearchScreen state searchResults q2 = FlatList cards
           \<or> BookmarksScreen state q3 = FlatList cards" for card
  proof -
    from that(2) obtain arts where
      "cards = map (\<lambda>a. \<lparr>article = a, isBookmarked = selectIsBookmarked state (id' a)\<rparr>) arts"
      using h s b by blast
    with that(1) show ?thesis by auto
  qed
  show ?thesis
    using h s b flag by blast
qed

theorem isBookmarked_flag_is_membership_witness:
  "HeadlinesScreen \<lparr>bookmarks = initialState\<lparr>items := [''u1'']\<rparr>\<rparr>
      (succeeded [(sample_article ''t'' ''u1'')\<lparr>id' := ''u1''\<rparr>])
     = FlatList [\<lparr>article = (sample_article ''t'' ''u1'')\<lparr>id' := ''u1''\<rparr>, isBookmarked = True\<rparr>]
   \<and> SearchScreen \<lparr>bookmarks = initialState\<lparr>items := [''u1'']\<rparr>\<rparr>
        [(sample_article ''t'' ''u1'')\<lparr>id' := ''u1''\<rparr>] (succeeded [])
     = FlatList [\<lparr>article = (sample_article ''t'' ''u1'')\<lparr>id' := ''u1''\<rparr>, isBookmarked = True\<rparr>]
   \<and> BookmarksScreen \<lparr>bookmarks = initialState\<lparr>items := [''u1'']\<rparr>\<rparr>
        (succeeded [(sample_article ''t'' ''u1'')\<lparr>id' := ''u1''\<rparr>,
                    (sample_article ''s'' ''u2'')\<lparr>id' := ''u2''\<rparr>])
     = FlatList [\<lparr>article = (sample_article ''t'' ''u1'')\<lparr>id' := ''u1''\<rparr>, isBookmarked = True\<rparr>]
   \<and> selectIsBookmarked \<lparr>bookmarks = initialState\<lparr>items := [''u1'']\<rparr>\<rparr> ''u1''
   \<and> HeadlinesScreen store_initial (succeeded [(sample_article ''t'' ''u1'')\<lparr>id' := ''u1''\<rparr>])
     = FlatList [\<lparr>article = (sample_article ''t'' ''u1'')\<lparr>id' := ''u1''\<rparr>, isBookmarked = False\<rparr>]
   \<and> \<not> selectIsBookmarked store_initial ''u1''"
proof -
  let ?a = "(sample_article ''t'' ''u1'')\<lparr>id' := ''u1''\<rparr>"
  let ?b = "(sample_article ''s'' ''u2'')\<lparr>id' := ''u2''\<rparr>"
  let ?state = "\<lparr>bookmarks = initialState\<lparr>items := [''u1'']\<rparr>\<rparr>"
  have h: "HeadlinesScreen ?state (succeeded [?a]) = FlatList [\<lparr>article = ?a, isBookmarked = True\<rparr>]"
    by (simp add: HeadlinesScreen_def succeeded_def ErrorBoundary_def HeadlinesScreen_renderNewsItem_def
        HeadlinesScreen_isBookmarked_def selectBookmarkItems_def selectBookmarksState_def)
  have s: "SearchScreen ?state [?a] (succeeded []) = FlatList [\<lparr>article = ?a, isBookmarked = True\<rparr>]"
    by (simp add: SearchScreen_def succeeded_def SearchScreen_renderNewsItem_def
        SearchScreen_isBookmarked_def selectBookmarkItems_def selectBookmarksState_def)
  have b: "BookmarksScreen ?state (succeeded [?a, ?b]) = FlatList [\<lparr>article = ?a, isBookmarked = True\<rparr>]"
    by (simp add: BookmarksScreen_def succeeded_def BookmarksScreen_renderNewsItem_def
        BookmarksScreen_isBookmarked_def selectBookmarkItems_def selectBookmarksState_def
        selectBookmarksLoading_def initialState_def sample_article_def)
  have h0: "HeadlinesScreen store_initial (succeeded [?a])
              = FlatList [\<lparr>article = ?a, isBookmarked = False\<rparr>]"
    by (simp add: HeadlinesScreen_def succeeded_def ErrorBoundary_def HeadlinesScreen_renderNewsItem_def
        HeadlinesScreen_isBookmarked_def selectBookmarkItems_def selectBookmarksState_def
        store_initial_def initialState_def)
  have m: "selectIsBookmarked ?state ''u1''"
    using h isBookmarked_flag_is_membership
            [of ?state "succeeded [?a]" "[\<lparr>article = ?a, isBookmarked = True\<rparr>]"
                "[?a]" "succeeded []" "succeeded [?a, ?b]"]
    by simp
  have m0: "\<not> selectIsBookmarked store_initial ''u1''"
    using h0 isBookmarked_flag_is_membership
            [of store_initial "succeeded [?a]" "[\<lparr>article = ?a, isBookmarked = False\<rparr>]"
                "[?a]" "succeeded []" "succeeded [?a, ?b]"]
    by simp
  show ?thesis
    using h s b h0 m m0 by simp
qed

section \<open>The reducers\<close>

lemma addBookmark_distinct:
  "distinct (items st) \<Longrightarrow> distinct (items (addBookmark now a st))"
  by (simp add: addBookmark_def)

lemma addBookmark_member: "a \<in> set (items (addBookmark now a st))"
  by (simp add: addBookmark_def)

lemma addBookmarks_distinct:
  "distinct (items st) \<Longrightarrow> distinct (items (addBookmarks acts st))"
proof (induction acts arbitrary: st)
  case Nil
  then show ?case by (simp add: addBookmarks_def)
next
  case (Cons act acts)
  obtain now a where act: "act = (now, a)" by (cases act)
  have "distinct (items (addBookmark now a st))"
    using Cons.prems by (rule addBookmark_distinct)
  then have "distinct (items (addBookmarks acts (addBookmark now a st)))"
    by (rule Cons.IH)
  then show ?case by (simp add: addBookmarks_def act)
qed

lemma count_list_append_new:
  "distinct xs \<Longrightarrow> count_list (xs @ [a]) a = (if a \<in> set xs then 2 else 1)"
  by (induction xs) auto

lemma count_list_distinct_member:
  "distinct xs \<Longrightarrow> a \<in> set xs \<Longrightarrow> count_list xs a = 1"
  by (induction xs) auto

lemma addBookmark_twice: "addBookmark t2 a (addBookmark t1 a st) = addBookmark t1 a st"
  by (simp add: addBookmark_def)

text \<open>
  C7, as stated, fails. Adding \<open>a1\<close> a second time does not return \<open>false\<close>: the second
  dispatch returns the action object, the very value the first dispatch returned, while
  the bookmarks stay \<open>[a1]\<close>.
\<close>

theorem add_returns_false_counterexample:
  "fst (dispatch_addBookmark 2 ''a1'' (snd (dispatch_addBookmark 1 ''a1'' store_initial)))
      = JObject [(''type'', JString ''bookmarks/addBookmark''), (''payload'', JString ''a1'')]
   \<and> fst (dispatch_addBookmark 2 ''a1'' (snd (dispatch_addBookmark 1 ''a1'' store_initial)))
      \<noteq> JBool False
   \<and> fst (dispatch_addBookmark 2 ''a1'' (snd (dispatch_addBookmark 1 ''a1'' store_initial)))
      = fst (dispatch_addBookmark 1 ''a1'' store_initial)
   \<and> items (bookmarks
        (snd (dispatch_addBookmark 2 ''a1'' (snd (dispatch_addBookmark 1 ''a1'' store_initial)))))
      = [''a1'']"
  by (simp add: dispatch_addBookmark_def addBookmark_action_def reduce_def addBookmark_def
      store_initial_def initialState_def)

text \<open>
  C7, amended. Adding the same article id twice is idempotent: the second add is a no-op
  that leaves the state as the first add left it, and on a set without duplicates, so
  on every set that adds have built from the empty one, the id then occurs exactly once. Add does not return \<open>false\<close>: dispatching it returns the action
  object, on the second call as on the first, and the second dispatch leaves the store
  unchanged. No run of adds on a set without duplicates introduces a duplicate, in
  particular none on the initial, empty set.
\<close>

theorem addBookmark_second_is_noop:
  "addBookmark t2 a (addBookmark t1 a st) = addBookmark t1 a st
   \<and> fst (dispatch_addBookmark t1 a state) = addBookmark_action a
   \<and> dispatch_addBookmark t2 a (snd (dispatch_addBookmark t1 a state))
        = (addBookmark_action a, snd (dispatch_addBookmark t1 a state))
   \<and> addBookmark_action a \<noteq> JBool False
   \<and> (distinct (items st) \<longrightarrow>
        count_list (items (addBookmark t2 a (addBookmark t1 a st))) a = 1
        \<and> distinct (items (addBookmarks acts st)))
   \<and> count_list (items (addBookmark t2 a (addBookmark t1 a (addBookmarks acts initialState)))) a = 1
   \<and> distinct (items (addBookmarks acts initialState))"
proof (intro conjI impI)
  show "addBookmark t2 a (addBookmark t1 a st) = addBookmark t1 a st"
    by (rule addBookmark_twice)
  have "distinct (items (addBookmarks acts initialState))"
    by (rule addBookmarks_distinct) (simp add: initialState_def)
  then have "distinct (items (addBookmark t1 a (addBookmarks acts initialState)))"
    by (rule addBookmark_distinct)
  then have "count_list (items (addBookmark t1 a (addBookmarks acts initialState))) a = 1"
    using addBookmark_member by (rule count_list_distinct_member)
  then show "count_list (items (addBookmark t2 a (addBookmark t1 a (addBookmarks acts initialState)))) a = 1"
    by (simp add: addBookmark_twice)
  show "fst (dispatch_addBookmark t1 a state) = addBookmark_action a"
    by (simp add: dispatch_addBookmark_def)
  show "dispatch_addBookmark t2 a (snd (dispatch_addBookmark t1 a state))
          = (addBookmark_action a, snd (dispatch_addBookmark t1 a state))"
    by (simp add: dispatch_addBookmark_def reduce_def addBookmark_twice)
  show "addBookmark_action a \<noteq> JBool False"
    by (simp add: addBookmark_action_def)
  show "distinct (items (addBookmarks acts initialState))"
    by (rule addBookmarks_distinct) (simp add: initialState_def)
next
  assume d: "distinct (items st)"
  have "distinct (items (addBookmark t1 a st))"
    using d by (rule addBookmark_distinct)
  then have "count_list (items (addBookmark t1 a st)) a = 1"
    using addBookmark_member by (rule count_list_distinct_member)
  then show "count_list (items (addBookmark t2 a (addBookmark t1 a st))) a = 1"
    by (simp add: addBookmark_twice)
  show "distinct (items (addBookmarks acts st))"
    using d by (rule addBookmarks_distinct)
qed

theorem addBookmark_second_is_noop_witness:
  "addBookmark 20 ''a1'' (addBookmark 10 ''a1'' initialState) = addBookmark 10 ''a1'' initialState
   \<and> dispatch_addBookmark 20 ''a1'' (snd (dispatch_addBookmark 10 ''a1'' store_initial))
        = (addBookmark_action ''a1'', snd (dispatch_addBookmark 10 ''a1'' store_initial))
   \<and> distinct (items initialState)
   \<and> count_list (items (addBookmark 20 ''a1'' (addBookmark 10 ''a1'' initialState))) ''a1'' = 1
   \<and> items (addBookmarks [(10, ''a1''), (20, ''a1''), (30, ''b2'')] initialState) = [''a1'', ''b2'']"
  using addBookmark_second_is_noop
          [of 20 "''a1''" 10 initialState store_initial "[(10, ''a1''), (20, ''a1''), (30, ''b2'')]"]
  by (simp add: initialState_def addBookmarks_def addBookmark_def)

text \<open>
  C10. Removing an id that is not bookmarked keeps the items as they are (same ids, same
  order) and still stamps \<open>lastUpdated\<close> with the current time; adding an id that is already
  bookmarked changes nothing at all, neither the items nor \<open>lastUpdated\<close>.
\<close>

theorem remove_absent_touches_add_present_does_not:
  "(a \<notin> set (items st) \<longrightarrow>
      items (removeBookmark now a st) = items st
      \<and> lastUpdated (removeBookmark now a st) = Some now)
   \<and> (a \<in> set (items st) \<longrightarrow> addBookmark now a st = st)"
proof (intro conjI impI)
  assume "a \<notin> set (items st)"
  then have "filter (\<lambda>i. i \<noteq> a) (items st) = items st"
    by (induction "items st") (auto simp: filter_id_conv)
  then show "items (removeBookmark now a st) = items st"
    by (simp add: removeBookmark_def)
next
  show "lastUpdated (removeBookmark now a st) = Some now"
    by (simp add: removeBookmark_def)
next
  assume "a \<in> set (items st)"
  then show "addBookmark now a st = st"
    by (simp add: addBookmark_def)
qed

theorem remove_absent_touches_add_present_does_not_witness:
  "''zz'' \<notin> set (items \<lparr>items = [''a1'', ''b2''], isLoading = False, error = None, lastUpdated = Some 5\<rparr>)
   \<and> items (removeBookmark 9 ''zz'' \<lparr>items = [''a1'', ''b2''], isLoading = False, error = None, lastUpdated = Some 5\<rparr>)
       = [''a1'', ''b2'']
   \<and> lastUpdated (removeBookmark 9 ''zz'' \<lparr>items = [''a1'', ''b2''], isLoading = False, error = None, lastUpdated = Some 5\<rparr>)
       = Some 9
   \<and> ''a1'' \<in> set (items \<lparr>items = [''a1'', ''b2''], isLoading = False, error = None, lastUpdated = Some 5\<rparr>)
   \<and> lastUpdated (addBookmark 9 ''a1'' \<lparr>items = [''a1'', ''b2''], isLoading = False, error = None, lastUpdated = Some 5\<rparr>)
       = Some 5"
  using remove_absent_touches_add_present_does_not
          [of "''zz''" "\<lparr>items = [''a1'', ''b2''], isLoading = False, error = None, lastUpdated = Some 5\<rparr>" 9]
        remove_absent_touches_add_present_does_not
          [of "''a1''" "\<lparr>items = [''a1'', ''b2''], isLoading = False, error = None, lastUpdated = Some 5\<rparr>" 9]
  by simp

end
